theory Spec2Isabelle
  imports Complex_Main
begin

section \<open>The layout engine of repo-city (src/utils/layoutEngine.ts)\<close>

text \<open>
  The engine turns a file tree into a flat list of positioned boxes. JavaScript numbers
  are modelled as \<^typ>\<open>real\<close> (exact arithmetic, no rounding, no NaN), the calls of
  \<^verbatim>\<open>Math.random()\<close> as reads of a stream \<open>rnd\<close> at a counter that is threaded
  through the code in evaluation order, and \<^verbatim>\<open>Date.now()\<close> as a clock \<open>now\<close>
  read once per exported record.
\<close>

subsection \<open>Data\<close>

datatype node_type = File | Folder

text \<open>\<^verbatim>\<open>interface FileNode\<close>: optional fields are options.\<close>

datatype FileNode =
  FileNode (fn_name: string) (fn_type: node_type) (fn_children: "FileNode list option")
    (fn_loc: "real option") (fn_content: "string option") (fn_url: "string option")

text \<open>\<^verbatim>\<open>THREE.Vector3\<close>, by value: every node owns its own vectors in the source.\<close>

datatype Vector3 = Vector3 (vx: real) (vy: real) (vz: real)

record SimulationNode =
  sn_id :: string
  sn_type :: node_type
  sn_position :: Vector3
  sn_velocity :: Vector3
  sn_radius :: real
  sn_targetHeight :: real
  sn_parentId :: "string option"
  sn_childrenIds :: "string list"
  sn_codeSnippet :: "string option"
  sn_loc :: real
  sn_url :: "string option"

record CityNode =
  cn_id :: string
  cn_position :: "real \<times> real \<times> real"
  cn_size :: "real \<times> real \<times> real"
  cn_type :: node_type
  cn_codeSnippet :: "string option"
  cn_parentId :: "string option"
  cn_loc :: real
  cn_lastModified :: real
  cn_extension :: string
  cn_url :: "string option"

subsection \<open>Vector operations of three.js\<close>

definition addV :: "Vector3 \<Rightarrow> Vector3 \<Rightarrow> Vector3" where
  "addV a b = Vector3 (vx a + vx b) (vy a + vy b) (vz a + vz b)"

definition subVectors :: "Vector3 \<Rightarrow> Vector3 \<Rightarrow> Vector3" where
  "subVectors a b = Vector3 (vx a - vx b) (vy a - vy b) (vz a - vz b)"

definition multiplyScalar :: "Vector3 \<Rightarrow> real \<Rightarrow> Vector3" where
  "multiplyScalar v s = Vector3 (vx v * s) (vy v * s) (vz v * s)"

definition setY :: "Vector3 \<Rightarrow> real \<Rightarrow> Vector3" where
  "setY v b = Vector3 (vx v) b (vz v)"

definition lengthSq :: "Vector3 \<Rightarrow> real" where
  "lengthSq v = vx v * vx v + vy v * vy v + vz v * vz v"

definition lengthV :: "Vector3 \<Rightarrow> real" where
  "lengthV v = sqrt (lengthSq v)"

text \<open>\<^verbatim>\<open>normalize() { return this.divideScalar(this.length() || 1) }\<close> and
  \<^verbatim>\<open>divideScalar(s) { return this.multiplyScalar(1 / s) }\<close>.\<close>

definition normalizeV :: "Vector3 \<Rightarrow> Vector3" where
  "normalizeV v = multiplyScalar v (1 / (if lengthV v = 0 then 1 else lengthV v))"

subsection \<open>Flattening the tree\<close>

text \<open>JavaScript truthiness of a \<^verbatim>\<open>string | null\<close>: null and the empty string are
  falsy. The result is the string when it is truthy.\<close>

fun truthy :: "string option \<Rightarrow> string option" where
  "truthy None = None"
| "truthy (Some s) = (if s = [] then None else Some s)"

text \<open>\<^verbatim>\<open>const parent = nodes.find(n => n.id === parentId); if (parent) parent.childrenIds.push(id)\<close>:
  the first record with that id gets the new child.\<close>

fun pushChild :: "string \<Rightarrow> string \<Rightarrow> SimulationNode list \<Rightarrow> SimulationNode list" where
  "pushChild p c [] = []"
| "pushChild p c (n # ns) =
     (if sn_id n = p then n\<lparr>sn_childrenIds := sn_childrenIds n @ [c]\<rparr> # ns
      else n # pushChild p c ns)"

text \<open>The state of \<open>flatten\<close> is the array \<open>nodes\<close> and the number of random draws made
  so far. \<open>flatten_forEach\<close> is \<^verbatim>\<open>node.children.forEach(child => flatten(child, id))\<close>.\<close>

fun flatten :: "(nat \<Rightarrow> real) \<Rightarrow> FileNode \<Rightarrow> string option \<Rightarrow>
    SimulationNode list \<times> nat \<Rightarrow> SimulationNode list \<times> nat"
and flatten_forEach :: "(nat \<Rightarrow> real) \<Rightarrow> FileNode list \<Rightarrow> string \<Rightarrow>
    SimulationNode list \<times> nat \<Rightarrow> SimulationNode list \<times> nat"
where
  "flatten rnd (FileNode nm ty cs lc ct u) parentId (nodes, k) =
     (if 400 \<le> length nodes then (nodes, k)
      else
        let ident = (case truthy parentId of Some p \<Rightarrow> p @ ''/'' @ nm | None \<Rightarrow> nm);
            isFile = (ty = File);
            radius = (if isFile then 5 else 10);
            loc = (case lc of None \<Rightarrow> 0 | Some l \<Rightarrow> l);
            height = (if isFile then max 2 (min (loc * 0.5) 100) else 1);
            (position, k1) =
               (case truthy parentId of
                  Some p \<Rightarrow>
                    (case find (\<lambda>n. sn_id n = p) nodes of
                       Some parentNode \<Rightarrow>
                         (addV (sn_position parentNode)
                            (Vector3 ((rnd k - 0.5) * 100) 0 ((rnd (k + 1) - 0.5) * 100)),
                          k + 2)
                     | None \<Rightarrow> (Vector3 0 0 0, k))
                | None \<Rightarrow> (Vector3 0 0 0, k));
            simNode = \<lparr> sn_id = ident, sn_type = ty, sn_position = position,
                        sn_velocity = Vector3 0 0 0, sn_radius = radius,
                        sn_targetHeight = height, sn_parentId = parentId,
                        sn_childrenIds = [], sn_codeSnippet = ct, sn_loc = loc,
                        sn_url = u \<rparr>;
            nodes1 = nodes @ [simNode];
            nodes2 = (case truthy parentId of
                        Some p \<Rightarrow> pushChild p ident nodes1
                      | None \<Rightarrow> nodes1)
        in (case cs of
              None \<Rightarrow> (nodes2, k1)
            | Some children \<Rightarrow> flatten_forEach rnd children ident (nodes2, k1)))"
| "flatten_forEach rnd [] ident st = st"
| "flatten_forEach rnd (child # rest) ident st =
     flatten_forEach rnd rest ident (flatten rnd child (Some ident) st)"

subsection \<open>The force simulation\<close>

text \<open>\<^verbatim>\<open>Math.max(1, Math.log(nodeCount) * 0.5)\<close>; \<^verbatim>\<open>Math.log(0)\<close> is
  \<open>-\<infinity>\<close>, so the maximum is 1 for an empty array.\<close>

definition spacingMultiplier :: "nat \<Rightarrow> real" where
  "spacingMultiplier nodeCount =
     (if nodeCount = 0 then 1 else max 1 (ln (real nodeCount) * 0.5))"

definition REPULSION_STRENGTH :: "nat \<Rightarrow> real" where
  "REPULSION_STRENGTH nodeCount = 2000 * spacingMultiplier nodeCount"

definition ATTRACTION_STRENGTH :: "nat \<Rightarrow> real" where
  "ATTRACTION_STRENGTH nodeCount = 0.01 / spacingMultiplier nodeCount"

definition PADDING :: "nat \<Rightarrow> real" where
  "PADDING nodeCount = 15 * spacingMultiplier nodeCount"

definition DAMPING :: real where
  "DAMPING = 0.9"

definition TIME_STEP :: real where
  "TIME_STEP = 0.1"

text \<open>A. Repulsion: the body of the inner \<^verbatim>\<open>nodes.forEach(other => ...)\<close>, on the
  accumulated force and the random counter.\<close>

definition repulsion :: "(nat \<Rightarrow> real) \<Rightarrow> nat \<Rightarrow> SimulationNode \<Rightarrow> SimulationNode \<Rightarrow>
    Vector3 \<times> nat \<Rightarrow> Vector3 \<times> nat" where
  "repulsion rnd nodeCount node other = (\<lambda>(force, k).
     if sn_id node = sn_id other then (force, k)
     else
       let diff = setY (subVectors (sn_position node) (sn_position other)) 0;
           distSq = lengthSq diff;
           (diff1, k1) =
              (if distSq < 0.1
               then (normalizeV (Vector3 (rnd k - 0.5) 0 (rnd (k + 1) - 0.5)), k + 2)
               else (diff, k));
           minDist = sn_radius node + sn_radius other + PADDING nodeCount
       in if distSq < minDist * minDist * 4
          then (addV force (multiplyScalar (normalizeV diff1)
                               (REPULSION_STRENGTH nodeCount / (distSq + 0.1))), k1)
          else (force, k1))"

text \<open>B. Attraction, child to parent or root to centre.\<close>

definition attraction :: "nat \<Rightarrow> SimulationNode list \<Rightarrow> SimulationNode \<Rightarrow> Vector3 \<Rightarrow> Vector3" where
  "attraction nodeCount nodes node force =
     (case truthy (sn_parentId node) of
        Some p \<Rightarrow>
          (case find (\<lambda>n. sn_id n = p) nodes of
             Some parent \<Rightarrow>
               addV force (multiplyScalar
                   (setY (subVectors (sn_position parent) (sn_position node)) 0)
                   (ATTRACTION_STRENGTH nodeCount))
           | None \<Rightarrow> force)
      | None \<Rightarrow>
          addV force (multiplyScalar
              (setY (subVectors (Vector3 0 0 0) (sn_position node)) 0)
              (ATTRACTION_STRENGTH nodeCount)))"

text \<open>The body of the first \<^verbatim>\<open>nodes.forEach(node => ...)\<close> for the node at index
  \<open>i\<close>: accumulate the force, then \<^verbatim>\<open>node.velocity.add(force.multiplyScalar(TIME_STEP))\<close>.\<close>

definition calculateForce :: "(nat \<Rightarrow> real) \<Rightarrow> nat \<Rightarrow> nat \<Rightarrow>
    SimulationNode list \<times> nat \<Rightarrow> SimulationNode list \<times> nat" where
  "calculateForce rnd nodeCount i = (\<lambda>(nodes, k).
     let node = nodes ! i;
         (force, k1) = fold (repulsion rnd nodeCount node) nodes (Vector3 0 0 0, k);
         force1 = attraction nodeCount nodes node force
     in (nodes[i := node\<lparr>sn_velocity :=
                      addV (sn_velocity node) (multiplyScalar force1 TIME_STEP)\<rparr>], k1))"

definition calculateForces :: "(nat \<Rightarrow> real) \<Rightarrow> nat \<Rightarrow>
    SimulationNode list \<times> nat \<Rightarrow> SimulationNode list \<times> nat" where
  "calculateForces rnd nodeCount st =
     fold (calculateForce rnd nodeCount) [0 ..< length (fst st)] st"

text \<open>The body of the second \<^verbatim>\<open>nodes.forEach\<close>. Both calls of
  \<^verbatim>\<open>multiplyScalar\<close> work in place on \<^verbatim>\<open>node.velocity\<close>: the vector scaled by
  \<open>TIME_STEP\<close> is the stored velocity itself.\<close>

definition updatePosition :: "SimulationNode \<Rightarrow> SimulationNode" where
  "updatePosition node =
     (let v1 = multiplyScalar (sn_velocity node) DAMPING;
          v2 = multiplyScalar v1 TIME_STEP;
          p = setY (addV (sn_position node) v2) 0
      in node\<lparr>sn_velocity := v2, sn_position := p\<rparr>)"

definition updatePositions :: "SimulationNode list \<Rightarrow> SimulationNode list" where
  "updatePositions nodes = map updatePosition nodes"

text \<open>C. Collision resolution: the body of the innermost callback for the nodes at
  indices \<open>i\<close> and \<open>j\<close>. Distance, overlap and correction are exact reals here, so
  a pair at positive distance below \<open>minDist\<close> is put at \<open>minDist\<close> exactly; the source
  computes them in doubles and reaches \<open>minDist\<close> up to their rounding.\<close>

definition resolvePair :: "nat \<Rightarrow> nat \<Rightarrow> nat \<Rightarrow> SimulationNode list \<Rightarrow> SimulationNode list" where
  "resolvePair nodeCount i j nodes =
     (let node = nodes ! i; other = nodes ! j
      in if sn_id node = sn_id other then nodes
         else
           let diff = setY (subVectors (sn_position node) (sn_position other)) 0;
               dist = lengthV diff;
               minDist = sn_radius node + sn_radius other + PADDING nodeCount
           in if dist < minDist
              then
                let overlap = minDist - dist;
                    correction = multiplyScalar (normalizeV diff) (overlap * 0.5)
                in (nodes[i := node\<lparr>sn_position := addV (sn_position node) correction\<rparr>])
                     [j := other\<lparr>sn_position := subVectors (sn_position other) correction\<rparr>]
              else nodes)"

definition resolvePass :: "nat \<Rightarrow> SimulationNode list \<Rightarrow> SimulationNode list" where
  "resolvePass nodeCount nodes =
     fold (\<lambda>i ns. fold (resolvePair nodeCount i) [0 ..< length ns] ns)
       [0 ..< length nodes] nodes"

definition resolveCollisions :: "nat \<Rightarrow> SimulationNode list \<Rightarrow> SimulationNode list" where
  "resolveCollisions nodeCount nodes = resolvePass nodeCount (resolvePass nodeCount nodes)"

text \<open>One round of the outer \<^verbatim>\<open>for\<close> loop, and the loop.\<close>

definition iteration :: "(nat \<Rightarrow> real) \<Rightarrow> nat \<Rightarrow>
    SimulationNode list \<times> nat \<Rightarrow> SimulationNode list \<times> nat" where
  "iteration rnd nodeCount st =
     (let (nodes1, k1) = calculateForces rnd nodeCount st
      in (resolveCollisions nodeCount (updatePositions nodes1), k1))"

fun simulate :: "(nat \<Rightarrow> real) \<Rightarrow> nat \<Rightarrow> nat \<Rightarrow>
    SimulationNode list \<times> nat \<Rightarrow> SimulationNode list \<times> nat" where
  "simulate rnd nodeCount 0 st = st"
| "simulate rnd nodeCount (Suc n) st = simulate rnd nodeCount n (iteration rnd nodeCount st)"

subsection \<open>Export\<close>

text \<open>\<^verbatim>\<open>s.split(c)\<close> for a one-character separator: never empty, \<open>[[]]\<close> for the
  empty string.\<close>

fun split :: "char \<Rightarrow> string \<Rightarrow> string list" where
  "split c [] = [[]]"
| "split c (a # s) =
     (if a = c then [] # split c s
      else (case split c s of [] \<Rightarrow> [[a]] | w # ws \<Rightarrow> (a # w) # ws))"

text \<open>\<^verbatim>\<open>node.id.split('.').pop() || 'txt'\<close>: the last piece, or \<open>txt\<close> when that
  piece is the empty string.\<close>

definition extension :: "node_type \<Rightarrow> string \<Rightarrow> string" where
  "extension ty ident =
     (if ty = File
      then (let e = last (split CHR ''.'' ident) in if e = [] then ''txt'' else e)
      else ''folder'')"

text \<open>The callback of the final \<^verbatim>\<open>nodes.map\<close>, given the clock reading and the random
  draw of this call.\<close>

definition toCityNode :: "real \<Rightarrow> real \<Rightarrow> SimulationNode \<Rightarrow> CityNode" where
  "toCityNode t r node =
     \<lparr> cn_id = sn_id node,
       cn_position = (vx (sn_position node), sn_targetHeight node / 2, vz (sn_position node)),
       cn_size = (sn_radius node * 1.5, sn_targetHeight node, sn_radius node * 1.5),
       cn_type = sn_type node,
       cn_codeSnippet = sn_codeSnippet node,
       cn_parentId = truthy (sn_parentId node),
       cn_loc = sn_loc node,
       cn_lastModified = t - r * 1000 * 60 * 60 * 24 * 30,
       cn_extension = extension (sn_type node) (sn_id node),
       cn_url = sn_url node \<rparr>"

fun export :: "(nat \<Rightarrow> real) \<Rightarrow> (nat \<Rightarrow> real) \<Rightarrow> nat \<Rightarrow> nat \<Rightarrow> SimulationNode list \<Rightarrow> CityNode list" where
  "export rnd now k i [] = []"
| "export rnd now k i (node # nodes) =
     toCityNode (now i) (rnd k) node # export rnd now (Suc k) (Suc i) nodes"

definition generateCityLayout :: "(nat \<Rightarrow> real) \<Rightarrow> (nat \<Rightarrow> real) \<Rightarrow> FileNode \<Rightarrow> nat \<Rightarrow> CityNode list" where
  "generateCityLayout rnd now rootNode iterations =
     (let (nodes, k) = flatten rnd rootNode None ([], 0);
          nodeCount = length nodes;
          (nodes1, k1) = simulate rnd nodeCount iterations (nodes, k)
      in export rnd now k1 0 nodes1)"

subsection \<open>Reference definitions and projections used in the statements\<close>

text \<open>The id rule of \<open>flatten\<close>: \<^verbatim>\<open>parentId ? `${parentId}/${node.name}` : node.name\<close>.\<close>

definition nodeId :: "string option \<Rightarrow> string \<Rightarrow> string" where
  "nodeId parentId nm = (case truthy parentId of Some p \<Rightarrow> p @ ''/'' @ nm | None \<Rightarrow> nm)"

text \<open>Reference traversal, with no cap and no state: depth-first preorder, children in input
  order, each node paired with the \<open>parentId\<close> it is visited with.\<close>

fun preorder :: "string option \<Rightarrow> FileNode \<Rightarrow> (string option \<times> FileNode) list"
and preorder_forEach :: "string \<Rightarrow> FileNode list \<Rightarrow> (string option \<times> FileNode) list"
where
  "preorder parentId (FileNode nm ty cs lc ct u) =
     (parentId, FileNode nm ty cs lc ct u) #
     (case cs of None \<Rightarrow> [] | Some children \<Rightarrow> preorder_forEach (nodeId parentId nm) children)"
| "preorder_forEach ident [] = []"
| "preorder_forEach ident (child # rest) =
     preorder (Some ident) child @ preorder_forEach ident rest"

text \<open>The number of nodes of the input tree.\<close>

fun totalNodes :: "FileNode \<Rightarrow> nat"
and totalNodes_list :: "FileNode list \<Rightarrow> nat"
where
  "totalNodes (FileNode nm ty cs lc ct u) =
     Suc (case cs of None \<Rightarrow> 0 | Some children \<Rightarrow> totalNodes_list children)"
| "totalNodes_list [] = 0"
| "totalNodes_list (child # rest) = totalNodes child + totalNodes_list rest"

text \<open>A record without what the traversal and the simulation change later on: position,
  velocity and the list of children.\<close>

definition skeleton :: "SimulationNode \<Rightarrow> SimulationNode" where
  "skeleton n = n\<lparr>sn_position := Vector3 0 0 0, sn_velocity := Vector3 0 0 0, sn_childrenIds := []\<rparr>"

text \<open>\<^verbatim>\<open>node.loc || 0\<close>.\<close>

definition locOr0 :: "FileNode \<Rightarrow> real" where
  "locOr0 node = (case fn_loc node of None \<Rightarrow> 0 | Some l \<Rightarrow> l)"

text \<open>The record \<open>flatten\<close> builds for a visited node, before it is placed.\<close>

definition initialRecord :: "string option \<times> FileNode \<Rightarrow> SimulationNode" where
  "initialRecord = (\<lambda>(parentId, node).
     \<lparr> sn_id = nodeId parentId (fn_name node), sn_type = fn_type node,
       sn_position = Vector3 0 0 0, sn_velocity = Vector3 0 0 0,
       sn_radius = (if fn_type node = File then 5 else 10),
       sn_targetHeight = (if fn_type node = File then max 2 (min (locOr0 node * 0.5) 100) else 1),
       sn_parentId = parentId, sn_childrenIds = [],
       sn_codeSnippet = fn_content node, sn_loc = locOr0 node, sn_url = fn_url node \<rparr>)"

text \<open>The part of \<open>flatten\<close> between the cap test and the recursion into the children:
  build the record, place it, push it, register it with its parent (see \<open>flatten_unfold\<close>).\<close>

definition admitNode :: "(nat \<Rightarrow> real) \<Rightarrow> FileNode \<Rightarrow> string option \<Rightarrow>
    SimulationNode list \<times> nat \<Rightarrow> SimulationNode list \<times> nat" where
  "admitNode rnd node parentId = (\<lambda>(nodes, k).
     let ident = nodeId parentId (fn_name node);
         pk = (case truthy parentId of
                  Some p \<Rightarrow>
                    (case find (\<lambda>n. sn_id n = p) nodes of
                       Some parentNode \<Rightarrow>
                         (addV (sn_position parentNode)
                            (Vector3 ((rnd k - 0.5) * 100) 0 ((rnd (k + 1) - 0.5) * 100)),
                          k + 2)
                     | None \<Rightarrow> (Vector3 0 0 0, k))
                | None \<Rightarrow> (Vector3 0 0 0, k));
         simNode = (initialRecord (parentId, node))\<lparr>sn_position := fst pk\<rparr>;
         nodes1 = nodes @ [simNode]
     in ((case truthy parentId of Some p \<Rightarrow> pushChild p ident nodes1 | None \<Rightarrow> nodes1), snd pk))"

text \<open>A record without the two fields the simulation writes.\<close>

definition frame :: "SimulationNode \<Rightarrow> SimulationNode" where
  "frame n = n\<lparr>sn_position := Vector3 0 0 0, sn_velocity := Vector3 0 0 0\<rparr>"

text \<open>An output record without what depends on the random source and the clock: the horizontal
  coordinates and \<open>lastModified\<close>.\<close>

definition blur :: "CityNode \<Rightarrow> CityNode" where
  "blur c = c\<lparr>cn_position := (0, fst (snd (cn_position c)), 0), cn_lastModified := 0\<rparr>"

text \<open>The \<open>clamp(v, lo, hi)\<close> of the specification.\<close>

definition clamp :: "real \<Rightarrow> real \<Rightarrow> real \<Rightarrow> real" where
  "clamp v lo hi = (if v < lo then lo else if hi < v then hi else v)"

text \<open>The array \<open>nodes\<close> of \<open>generateCityLayout\<close> when the loop has run.\<close>

definition simulatedNodes :: "(nat \<Rightarrow> real) \<Rightarrow> FileNode \<Rightarrow> nat \<Rightarrow> SimulationNode list" where
  "simulatedNodes rnd rootNode iterations =
     (let (nodes, k) = flatten rnd rootNode None ([], 0)
      in fst (simulate rnd (length nodes) iterations (nodes, k)))"

text \<open>Scenario A of the specification: a root-only folder \<open>repo\<close>.\<close>

definition scenarioA :: FileNode where
  "scenarioA = FileNode ''repo'' Folder None None None None"

text \<open>Scenario B of the specification: the folder \<open>repo\<close> with one file \<open>a.ts\<close> of 100
  lines.\<close>

definition scenarioB :: FileNode where
  "scenarioB = FileNode ''repo'' Folder
     (Some [FileNode ''a.ts'' File None (Some 100) None None]) None None None"





text \<open>The random offset of a new record from its parent, drawn at counter \<open>k\<close>:
  \<^verbatim>\<open>new THREE.Vector3((Math.random() - 0.5) * 100, 0, (Math.random() - 0.5) * 100)\<close>.\<close>

definition jitter :: "(nat \<Rightarrow> real) \<Rightarrow> nat \<Rightarrow> Vector3" where
  "jitter rnd k = Vector3 ((rnd k - 0.5) * 100) 0 ((rnd (k + 1) - 0.5) * 100)"

text \<open>A record without its list of children.\<close>

definition core :: "SimulationNode \<Rightarrow> SimulationNode" where
  "core n = n\<lparr>sn_childrenIds := []\<rparr>"

text \<open>The initial position of a record visited with \<open>parentId\<close> when the array is \<open>nodes\<close>
  and \<open>k\<close> draws have been made, as \<open>flatten\<close> computes it.\<close>

definition place :: "(nat \<Rightarrow> real) \<Rightarrow> SimulationNode list \<Rightarrow> string option \<Rightarrow> nat \<Rightarrow> Vector3" where
  "place rnd nodes parentId k =
     (case truthy parentId of
        Some p \<Rightarrow>
          (case find (\<lambda>n. sn_id n = p) nodes of
             Some parentNode \<Rightarrow> addV (sn_position parentNode) (jitter rnd k)
           | None \<Rightarrow> Vector3 0 0 0)
      | None \<Rightarrow> Vector3 0 0 0)"

text \<open>The number of draws made for the records of an array in which every truthy
  \<open>parentId\<close> was found: two per record with a truthy \<open>parentId\<close>.\<close>

definition draws :: "SimulationNode list \<Rightarrow> nat" where
  "draws nodes = 2 * length (filter (\<lambda>c. truthy (sn_parentId c) \<noteq> None) nodes)"

text \<open>Every truthy \<open>parentId\<close> is the id of an earlier record.\<close>

definition parentsPrecede :: "SimulationNode list \<Rightarrow> bool" where
  "parentsPrecede ns \<longleftrightarrow>
     (\<forall>j<length ns.
        case truthy (sn_parentId (ns ! j)) of
          None \<Rightarrow> True
        | Some p \<Rightarrow> p \<in> sn_id ` set (take j ns))"

text \<open>Every record is where \<open>flatten\<close> put it when it was created, and \<open>k\<close> counts the
  draws.\<close>

definition placed :: "(nat \<Rightarrow> real) \<Rightarrow> SimulationNode list \<Rightarrow> nat \<Rightarrow> bool" where
  "placed rnd ns k \<longleftrightarrow>
     parentsPrecede ns \<and> k = draws ns \<and>
     (\<forall>j<length ns. sn_position (ns ! j) =
        place rnd (take j ns) (sn_parentId (ns ! j)) (draws (take j ns)))"

text \<open>The first record with a given id lists the ids of the records that name it as their
  parent, in array order; a later record with the same id lists nothing.\<close>

definition childrenLinked :: "SimulationNode list \<Rightarrow> bool" where
  "childrenLinked ns \<longleftrightarrow>
     (\<forall>i<length ns. sn_childrenIds (ns ! i) =
        (if sn_id (ns ! i) \<in> sn_id ` set (take i ns) then []
         else map sn_id (filter (\<lambda>c. truthy (sn_parentId c) = Some (sn_id (ns ! i))) ns)))"

text \<open>What a call of \<open>flatten\<close> with \<open>parentId\<close> may rely on: a truthy \<open>parentId\<close> is the id
  of a record of the array.\<close>

definition parentKnown :: "string option \<Rightarrow> SimulationNode list \<times> nat \<Rightarrow> bool" where
  "parentKnown parentId st \<longleftrightarrow>
     (case truthy parentId of None \<Rightarrow> True | Some p \<Rightarrow> p \<in> sn_id ` set (fst st))"

text \<open>A small tree with a nested folder: \<open>repo/src/a.ts\<close> and \<open>repo/README.md\<close>.\<close>

definition sampleTree :: FileNode where
  "sampleTree = FileNode ''repo'' Folder
     (Some [FileNode ''src'' Folder
              (Some [FileNode ''a.ts'' File None (Some 100) None None]) None None None,
            FileNode ''README.md'' File None (Some 10) None None]) None None None"

text \<open>A tree whose root has the empty string as its name.\<close>

definition namelessRoot :: FileNode where
  "namelessRoot = FileNode [] Folder
     (Some [FileNode ''a'' File None None None None]) None None None"

text \<open>A tree with two sibling folders of the same name, \<open>r/a\<close> holding \<open>x\<close> and
  \<open>r/a\<close> holding \<open>y\<close>.\<close>

definition twinFolders :: FileNode where
  "twinFolders = FileNode ''r'' Folder
     (Some [FileNode ''a'' Folder (Some [FileNode ''x'' File None None None None]) None None None,
            FileNode ''a'' Folder (Some [FileNode ''y'' File None None None None]) None None None])
     None None None"

section \<open>Properties\<close>

subsection \<open>The traversal and the static fields\<close>

lemma flatten_unfold:
  "flatten rnd (FileNode nm ty cs lc ct u) parentId (nodes, k) =
     (if 400 \<le> length nodes then (nodes, k)
      else (case cs of
              None \<Rightarrow> admitNode rnd (FileNode nm ty cs lc ct u) parentId (nodes, k)
            | Some children \<Rightarrow>
                flatten_forEach rnd children (nodeId parentId nm)
                  (admitNode rnd (FileNode nm ty cs lc ct u) parentId (nodes, k))))"
  by (simp add: admitNode_def initialRecord_def nodeId_def locOr0_def Let_def
      split: option.splits prod.splits)

lemma skeleton_pushChild: "map skeleton (pushChild p c ns) = map skeleton ns"
  by (induction ns) (simp_all add: skeleton_def)

lemma skeleton_admitNode:
  "map skeleton (fst (admitNode rnd node parentId (nodes, k))) =
     map skeleton nodes @ [initialRecord (parentId, node)]"
  by (simp add: admitNode_def Let_def skeleton_pushChild split: option.splits)
     (simp_all add: skeleton_def initialRecord_def)

lemma take_take_append: "take n (take n xs @ ys) = take n (xs @ ys)"
  by (induction xs arbitrary: n) (auto simp: take_Cons split: nat.splits)

lemma flatten_forEach_skeleton:
  assumes "\<And>c pid st. c \<in> set cs \<Longrightarrow> length (fst st) \<le> 400 \<Longrightarrow>
     map skeleton (fst (flatten rnd c pid st)) =
       take 400 (map skeleton (fst st) @ map initialRecord (preorder pid c))"
  shows "length (fst st) \<le> 400 \<Longrightarrow>
     map skeleton (fst (flatten_forEach rnd cs ident st)) =
       take 400 (map skeleton (fst st) @ map initialRecord (preorder_forEach ident cs))"
  using assms
proof (induction cs arbitrary: st)
  case Nil
  then show ?case by simp
next
  case (Cons c cs)
  let ?st1 = "flatten rnd c (Some ident) st"
  have h: "map skeleton (fst ?st1) =
       take 400 (map skeleton (fst st) @ map initialRecord (preorder (Some ident) c))"
    using Cons.prems by simp
  have "length (map skeleton (fst ?st1)) \<le> 400"
    unfolding h by simp
  then have len: "length (fst ?st1) \<le> 400" by simp
  have "map skeleton (fst (flatten_forEach rnd cs ident ?st1)) =
       take 400 (map skeleton (fst ?st1) @ map initialRecord (preorder_forEach ident cs))"
    using Cons.IH [OF len] Cons.prems(2) by simp
  also have "\<dots> = take 400 ((map skeleton (fst st) @ map initialRecord (preorder (Some ident) c))
       @ map initialRecord (preorder_forEach ident cs))"
    unfolding h by (rule take_take_append)
  finally show ?case
    by (simp only: flatten_forEach.simps preorder_forEach.simps map_append append_assoc)
qed

lemma flatten_skeleton:
  "length (fst st) \<le> 400 \<Longrightarrow>
     map skeleton (fst (flatten rnd node pid st)) =
       take 400 (map skeleton (fst st) @ map initialRecord (preorder pid node))"
proof (induction node arbitrary: pid st)
  case (FileNode nm ty cs lc ct u)
  obtain nodes k where st: "st = (nodes, k)" by (cases st)
  show ?case
  proof (cases "400 \<le> length nodes")
    case True
    with FileNode.prems st show ?thesis by (simp add: flatten_unfold del: flatten.simps)
  next
    case False
    let ?st1 = "admitNode rnd (FileNode nm ty cs lc ct u) pid (nodes, k)"
    have a: "map skeleton (fst ?st1) = map skeleton nodes @ [initialRecord (pid, FileNode nm ty cs lc ct u)]"
      by (rule skeleton_admitNode)
    have "length (map skeleton (fst ?st1)) \<le> 400"
      unfolding a using False by simp
    then have len: "length (fst ?st1) \<le> 400" by simp
    show ?thesis
    proof (cases cs)
      case None
      with False st a show ?thesis by (simp add: flatten_unfold del: flatten.simps)
    next
      case (Some children)
      have "map skeleton (fst (flatten_forEach rnd children (nodeId pid nm) ?st1)) =
          take 400 (map skeleton (fst ?st1) @ map initialRecord (preorder_forEach (nodeId pid nm) children))"
        using FileNode.IH Some by (intro flatten_forEach_skeleton [OF _ len]) auto
      with False st a Some show ?thesis by (simp add: flatten_unfold del: flatten.simps)
    qed
  qed
qed

lemma frame_update:
  assumes "frame x = frame (ns ! i)"
  shows "map frame (ns[i := x]) = map frame ns"
proof (rule nth_equalityI)
  show "length (map frame (ns[i := x])) = length (map frame ns)" by simp
next
  fix m assume "m < length (map frame (ns[i := x]))"
  then show "map frame (ns[i := x]) ! m = map frame ns ! m"
    using assms by (cases "m = i") simp_all
qed

lemma frame_update2:
  assumes "frame a = frame (ns ! i)" and "frame b = frame (ns ! j)"
  shows "map frame (ns[i := a, j := b]) = map frame ns"
proof (rule nth_equalityI)
  show "length (map frame (ns[i := a, j := b])) = length (map frame ns)" by simp
next
  fix m assume "m < length (map frame (ns[i := a, j := b]))"
  then show "map frame (ns[i := a, j := b]) ! m = map frame ns ! m"
    using assms by (cases "m = j"; cases "m = i") simp_all
qed

lemma frame_calculateForce:
  "map frame (fst (calculateForce rnd nc i st)) = map frame (fst st)"
  by (cases st) (simp add: calculateForce_def Let_def frame_update frame_def split: prod.splits)

lemma frame_fold_calculateForce:
  "map frame (fst (fold (calculateForce rnd nc) js st)) = map frame (fst st)"
  by (induction js arbitrary: st) (simp_all add: frame_calculateForce)

lemma frame_calculateForces:
  "map frame (fst (calculateForces rnd nc st)) = map frame (fst st)"
  by (simp add: calculateForces_def frame_fold_calculateForce)

lemma frame_updatePositions: "map frame (updatePositions ns) = map frame ns"
  by (simp add: updatePositions_def updatePosition_def Let_def frame_def)

lemma frame_resolvePair: "map frame (resolvePair nc i j ns) = map frame ns"
  by (simp add: resolvePair_def Let_def frame_update2 frame_def)

lemma frame_fold_resolvePair: "map frame (fold (resolvePair nc i) js ns) = map frame ns"
  by (induction js arbitrary: ns) (simp_all add: frame_resolvePair)

lemma frame_fold_resolve:
  "map frame (fold (\<lambda>i ns. fold (resolvePair nc i) [0 ..< length ns] ns) js ns) = map frame ns"
  by (induction js arbitrary: ns) (simp_all add: frame_fold_resolvePair)

lemma frame_resolveCollisions: "map frame (resolveCollisions nc ns) = map frame ns"
  by (simp add: resolveCollisions_def resolvePass_def frame_fold_resolve)

lemma frame_iteration: "map frame (fst (iteration rnd nc st)) = map frame (fst st)"
  using frame_calculateForces [of rnd nc st]
  by (cases "calculateForces rnd nc st")
     (simp add: iteration_def frame_resolveCollisions frame_updatePositions)

lemma frame_simulate: "map frame (fst (simulate rnd nc n st)) = map frame (fst st)"
  by (induction n arbitrary: st) (simp_all add: frame_iteration)

lemma skeleton_frame: "skeleton (frame n) = skeleton n"
  by (simp add: skeleton_def frame_def)

lemma skeleton_o_frame: "skeleton \<circ> frame = skeleton"
  by (simp add: fun_eq_iff skeleton_frame)

lemma simulate_preserves:
  assumes "\<And>s. f (frame s) = f s"
  shows "map f (fst (simulate rnd nc n st)) = map f (fst st)"
proof -
  have *: "map f (map frame xs) = map f xs" for xs
    by (induction xs) (simp_all add: assms)
  have "map f (fst (simulate rnd nc n st)) = map f (map frame (fst (simulate rnd nc n st)))"
    by (rule * [symmetric])
  also have "\<dots> = map f (map frame (fst st))"
    by (simp only: frame_simulate)
  also have "\<dots> = map f (fst st)"
    by (rule *)
  finally show ?thesis .
qed

lemma skeleton_simulate: "map skeleton (fst (simulate rnd nc n st)) = map skeleton (fst st)"
  by (rule simulate_preserves) (rule skeleton_frame)

lemma blur_toCityNode: "blur (toCityNode t r n) = blur (toCityNode 0 0 (skeleton n))"
  by (simp add: blur_def toCityNode_def skeleton_def)

lemma blur_export:
  "map blur (export rnd now k i ns) = map (\<lambda>n. blur (toCityNode 0 0 n)) (map skeleton ns)"
proof (induction ns arbitrary: k i)
  case Nil
  show ?case by simp
next
  case (Cons n ns)
  show ?case using Cons.IH [of "Suc k" "Suc i"] blur_toCityNode [of "now i" "rnd k" n]
    by (simp add: skeleton_def)
qed

lemma blur_generateCityLayout:
  "map blur (generateCityLayout rnd now rootNode n) =
     map (\<lambda>x. blur (toCityNode 0 0 (initialRecord x))) (take 400 (preorder None rootNode))"
proof -
  obtain nodes k where f: "flatten rnd rootNode None ([], 0) = (nodes, k)"
    by (cases "flatten rnd rootNode None ([], 0)")
  obtain nodes1 k1 where s: "simulate rnd (length nodes) n (nodes, k) = (nodes1, k1)"
    by (cases "simulate rnd (length nodes) n (nodes, k)")
  have "map skeleton nodes1 = map skeleton nodes"
    using skeleton_simulate [of rnd "length nodes" n "(nodes, k)"] s by simp
  also have "\<dots> = take 400 (map initialRecord (preorder None rootNode))"
    using flatten_skeleton [of "([], 0)" rnd rootNode None] f by simp
  finally have "map skeleton nodes1 = take 400 (map initialRecord (preorder None rootNode))" .
  then show ?thesis
    by (simp add: generateCityLayout_def f s blur_export take_map)
qed

lemma length_preorder:
  "length (preorder pid node) = totalNodes node"
  "length (preorder_forEach ident cs) = totalNodes_list cs"
  by (induction pid node and ident cs rule: preorder_preorder_forEach.induct)
     (simp_all split: option.splits)

lemma map_blur_eq:
  assumes "\<And>c. f (blur c) = f c"
  shows "map f (generateCityLayout rnd now rootNode n) =
     map (\<lambda>x. f (toCityNode 0 0 (initialRecord x))) (take 400 (preorder None rootNode))"
proof -
  have "map f (generateCityLayout rnd now rootNode n) =
      map f (map blur (generateCityLayout rnd now rootNode n))"
    by (simp add: assms)
  also have "\<dots> = map f (map (\<lambda>x. blur (toCityNode 0 0 (initialRecord x)))
      (take 400 (preorder None rootNode)))"
    by (simp only: blur_generateCityLayout)
  finally show ?thesis by (simp add: assms)
qed

lemma flatten_at_cap:
  "400 \<le> length nodes \<Longrightarrow> flatten rnd node pid (nodes, k) = (nodes, k)"
  by (cases node) simp

text \<open>C1: for every input tree the output has exactly \<open>min(totalNodes, 400)\<close> records, their
  ids are, in order, the ids of the first \<open>min(totalNodes, 400)\<close> nodes of the depth-first
  preorder traversal (children in input order), and a call of \<open>flatten\<close> made when the array
  already holds 400 records adds nothing.\<close>

theorem C1_cap_and_preorder:
  "length (generateCityLayout rnd now rootNode n) = min (totalNodes rootNode) 400
   \<and> map cn_id (generateCityLayout rnd now rootNode n) =
       take (min (totalNodes rootNode) 400)
         (map (\<lambda>(parentId, node). nodeId parentId (fn_name node)) (preorder None rootNode))
   \<and> (400 \<le> length nodes \<longrightarrow> flatten rnd node pid (nodes, k) = (nodes, k))"
proof -
  have "map cn_id (generateCityLayout rnd now rootNode n) =
     map (\<lambda>x. cn_id (toCityNode 0 0 (initialRecord x))) (take 400 (preorder None rootNode))"
    by (rule map_blur_eq) (simp add: blur_def)
  then have ids: "map cn_id (generateCityLayout rnd now rootNode n) =
     take 400 (map (\<lambda>(parentId, node). nodeId parentId (fn_name node)) (preorder None rootNode))"
    by (simp add: toCityNode_def initialRecord_def take_map split_def)
  have "length (map cn_id (generateCityLayout rnd now rootNode n)) = min (totalNodes rootNode) 400"
    unfolding ids by (simp add: length_preorder)
  then have len: "length (generateCityLayout rnd now rootNode n) = min (totalNodes rootNode) 400"
    by simp
  have "take 400 (map (\<lambda>(parentId, node). nodeId parentId (fn_name node)) (preorder None rootNode))
      = take (min (totalNodes rootNode) 400)
         (map (\<lambda>(parentId, node). nodeId parentId (fn_name node)) (preorder None rootNode))"
    by (simp add: min_def length_preorder)
  with ids len show ?thesis by (simp add: flatten_at_cap)
qed

theorem C1_cap_and_preorder_witness:
  "400 \<le> length (replicate 400 (initialRecord (None, FileNode ''x'' File None None None None)))
   \<and> flatten (\<lambda>i. 0) (FileNode ''late'' File None None None None) (Some ''repo'')
        (replicate 400 (initialRecord (None, FileNode ''x'' File None None None None)), 7) =
       (replicate 400 (initialRecord (None, FileNode ''x'' File None None None None)), 7)
   \<and> map cn_id (generateCityLayout (\<lambda>i. 0) (\<lambda>i. 0)
         (FileNode ''repo'' Folder (Some [FileNode ''a.ts'' File None (Some 100) None None])
            None None None) 50) = [''repo'', ''repo/a.ts'']"
  using C1_cap_and_preorder [of "\<lambda>i. 0" "\<lambda>i. 0"
      "FileNode ''repo'' Folder (Some [FileNode ''a.ts'' File None (Some 100) None None])
            None None None" 50
      "replicate 400 (initialRecord (None, FileNode ''x'' File None None None None))"
      "FileNode ''late'' File None None None None" "Some ''repo''" 7]
  by (simp add: nodeId_def)

lemma split_without_separator: "c \<notin> set s \<Longrightarrow> split c s = [s]"
  by (induction s) auto

lemma extension_without_dot:
  "CHR ''.'' \<notin> set ident \<Longrightarrow> extension File ident = (if ident = [] then ''txt'' else ident)"
  by (simp add: extension_def split_without_separator)

text \<open>C3: the claim gives the extension \<open>txt\<close> to a file whose id has no dot. For the tree
  \<open>repo/Makefile\<close> the code returns the whole id as the extension of the file:
  \<^verbatim>\<open>'repo/Makefile'.split('.')\<close> has the id as its only piece, which is not falsy.\<close>

theorem C3_extension_without_dot:
  "map cn_extension (generateCityLayout rnd now
      (FileNode ''repo'' Folder (Some [FileNode ''Makefile'' File None None None None])
         None None None) n) = [''folder'', ''repo/Makefile'']"
proof -
  have "map cn_extension (generateCityLayout rnd now
      (FileNode ''repo'' Folder (Some [FileNode ''Makefile'' File None None None None])
         None None None) n) =
     map (\<lambda>x. cn_extension (toCityNode 0 0 (initialRecord x)))
       (take 400 (preorder None
          (FileNode ''repo'' Folder (Some [FileNode ''Makefile'' File None None None None])
         None None None)))"
    by (rule map_blur_eq) (simp add: blur_def)
  then show ?thesis
    by (simp add: toCityNode_def initialRecord_def nodeId_def extension_def)
qed

text \<open>C4: a file record has \<open>targetHeight = clamp(loc * 0.5, 2, 100)\<close>, with \<open>loc\<close> taken as 0
  when absent, a folder record has 1, as the second component of the exported size shows,
  and the simulation leaves \<open>targetHeight\<close> alone for every iteration count.\<close>

theorem C4_targetHeight:
  "map (\<lambda>c. (cn_type c, fst (snd (cn_size c)))) (generateCityLayout rnd now rootNode n) =
     map (\<lambda>(parentId, node).
            (fn_type node,
             if fn_type node = File then clamp (locOr0 node * 0.5) 2 100 else 1))
       (take 400 (preorder None rootNode))
   \<and> map sn_targetHeight (simulatedNodes rnd rootNode n) =
       map sn_targetHeight (simulatedNodes rnd rootNode 0)"
proof -
  have "map (\<lambda>c. (cn_type c, fst (snd (cn_size c)))) (generateCityLayout rnd now rootNode n) =
     map (\<lambda>x. (\<lambda>c. (cn_type c, fst (snd (cn_size c)))) (toCityNode 0 0 (initialRecord x)))
       (take 400 (preorder None rootNode))"
    by (rule map_blur_eq) (simp add: blur_def)
  moreover have "(\<lambda>x. (\<lambda>c. (cn_type c, fst (snd (cn_size c)))) (toCityNode 0 0 (initialRecord x)))
     = (\<lambda>(parentId, node).
            (fn_type node,
             if fn_type node = File then clamp (locOr0 node * 0.5) 2 100 else 1))"
    by (auto simp: fun_eq_iff toCityNode_def initialRecord_def clamp_def)
  moreover have "map sn_targetHeight (simulatedNodes rnd rootNode n) =
       map sn_targetHeight (simulatedNodes rnd rootNode 0)"
  proof -
    obtain nodes k where f: "flatten rnd rootNode None ([], 0) = (nodes, k)"
      by (cases "flatten rnd rootNode None ([], 0)")
    have "map sn_targetHeight (fst (simulate rnd (length nodes) n (nodes, k)))
        = map sn_targetHeight (fst (nodes, k))"
      by (rule simulate_preserves) (simp add: frame_def)
    then show ?thesis
      by (simp add: simulatedNodes_def f)
  qed
  ultimately show ?thesis by simp
qed

subsection \<open>Export\<close>

lemma generateCityLayout_export:
  "generateCityLayout rnd now rootNode n =
     export rnd now
       (snd (simulate rnd (length (fst (flatten rnd rootNode None ([], 0)))) n
            (flatten rnd rootNode None ([], 0)))) 0
       (simulatedNodes rnd rootNode n)"
  by (simp add: generateCityLayout_def simulatedNodes_def split: prod.splits)

lemma map_export:
  assumes "\<And>t r s. f (toCityNode t r s) = g s"
  shows "map f (export rnd now k i ns) = map g ns"
  by (induction ns arbitrary: k i) (simp_all add: assms)

lemma skeleton_simulatedNodes:
  "map skeleton (simulatedNodes rnd rootNode n) =
     map initialRecord (take 400 (preorder None rootNode))"
proof -
  obtain nodes k where f: "flatten rnd rootNode None ([], 0) = (nodes, k)"
    by (cases "flatten rnd rootNode None ([], 0)")
  have "map skeleton (simulatedNodes rnd rootNode n) = map skeleton nodes"
    using skeleton_simulate [of rnd "length nodes" n "(nodes, k)"]
    by (simp add: simulatedNodes_def f)
  also have "\<dots> = take 400 (map initialRecord (preorder None rootNode))"
    using flatten_skeleton [of "([], 0)" rnd rootNode None] f by simp
  finally show ?thesis by (simp add: take_map)
qed

lemma map_skeleton_eq:
  assumes "\<And>s. f (skeleton s) = f s"
  shows "map f (simulatedNodes rnd rootNode n) =
     map (\<lambda>x. f (initialRecord x)) (take 400 (preorder None rootNode))"
proof -
  have *: "map f (map skeleton xs) = map f xs" for xs
    by (induction xs) (simp_all add: assms)
  have "map f (simulatedNodes rnd rootNode n) = map f (map skeleton (simulatedNodes rnd rootNode n))"
    by (rule * [symmetric])
  also have "\<dots> = map f (map initialRecord (take 400 (preorder None rootNode)))"
    by (simp only: skeleton_simulatedNodes)
  finally show ?thesis by simp
qed

text \<open>C5: every output record has position \<open>(x, targetHeight / 2, z)\<close>, with \<open>x\<close> and \<open>z\<close>
  the final coordinates of the simulation, and size
  \<open>(radius * 1.5, targetHeight, radius * 1.5)\<close>; the radius is 5 for a file and 10 for a folder,
  so the footprint is 7.5 for a file and 15 for a folder.\<close>

theorem C5_position_and_size:
  "map (\<lambda>c. (cn_position c, cn_size c)) (generateCityLayout rnd now rootNode n) =
     map (\<lambda>s. ((vx (sn_position s), sn_targetHeight s / 2, vz (sn_position s)),
                (sn_radius s * 1.5, sn_targetHeight s, sn_radius s * 1.5)))
       (simulatedNodes rnd rootNode n)
   \<and> map (\<lambda>s. (sn_type s, sn_radius s)) (simulatedNodes rnd rootNode n) =
       map (\<lambda>(parentId, node). (fn_type node, if fn_type node = File then 5 else 10))
         (take 400 (preorder None rootNode))
   \<and> map (\<lambda>c. (cn_type c, fst (cn_size c), snd (snd (cn_size c))))
         (generateCityLayout rnd now rootNode n) =
       map (\<lambda>(parentId, node).
              (fn_type node, if fn_type node = File then 7.5 else 15,
               if fn_type node = File then 7.5 else 15))
         (take 400 (preorder None rootNode))"
proof -
  have a: "map (\<lambda>c. (cn_position c, cn_size c)) (generateCityLayout rnd now rootNode n) =
     map (\<lambda>s. ((vx (sn_position s), sn_targetHeight s / 2, vz (sn_position s)),
                (sn_radius s * 1.5, sn_targetHeight s, sn_radius s * 1.5)))
       (simulatedNodes rnd rootNode n)"
    unfolding generateCityLayout_export
    by (rule map_export) (simp add: toCityNode_def)
  have "map (\<lambda>s. (sn_type s, sn_radius s)) (simulatedNodes rnd rootNode n) =
       map (\<lambda>x. (\<lambda>s. (sn_type s, sn_radius s)) (initialRecord x))
         (take 400 (preorder None rootNode))"
    by (rule map_skeleton_eq) (simp add: skeleton_def)
  then have b: "map (\<lambda>s. (sn_type s, sn_radius s)) (simulatedNodes rnd rootNode n) =
       map (\<lambda>(parentId, node). (fn_type node, if fn_type node = File then 5 else 10))
         (take 400 (preorder None rootNode))"
    by (simp add: initialRecord_def split_def)
  have "map (\<lambda>c. (cn_type c, fst (cn_size c), snd (snd (cn_size c))))
         (generateCityLayout rnd now rootNode n) =
     map (\<lambda>x. (\<lambda>c. (cn_type c, fst (cn_size c), snd (snd (cn_size c))))
          (toCityNode 0 0 (initialRecord x))) (take 400 (preorder None rootNode))"
    by (rule map_blur_eq) (simp add: blur_def)
  then have c: "map (\<lambda>c. (cn_type c, fst (cn_size c), snd (snd (cn_size c))))
         (generateCityLayout rnd now rootNode n) =
       map (\<lambda>(parentId, node).
              (fn_type node, if fn_type node = File then 7.5 else 15,
               if fn_type node = File then 7.5 else 15))
         (take 400 (preorder None rootNode))"
    by (simp add: toCityNode_def initialRecord_def split_def)
  from a b c show ?thesis by blast
qed

lemma flatten_scenarioB:
  "flatten rnd scenarioB None ([], 0) =
     ([(initialRecord (None, scenarioB))\<lparr>sn_childrenIds := [''repo/a.ts'']\<rparr>,
       (initialRecord (Some ''repo'', FileNode ''a.ts'' File None (Some 100) None None))
         \<lparr>sn_position := Vector3 ((rnd 0 - 0.5) * 100) 0 ((rnd 1 - 0.5) * 100)\<rparr>], 2)"
  by (simp add: scenarioB_def initialRecord_def nodeId_def locOr0_def addV_def Let_def)

text \<open>C10: two runs on the same tree with the same iteration count, whatever the random draws
  and the clock, give outputs of the same length that agree index by index once the horizontal
  coordinates and \<open>lastModified\<close> are set aside, in particular on id, type, parentId, size,
  loc, extension and url; the full outputs can differ, as the two runs on Scenario B with the
  draws constantly 0 and constantly 1/2 do.\<close>

theorem C10_static_fields_deterministic:
  "length (generateCityLayout rnd1 now1 rootNode n) =
     length (generateCityLayout rnd2 now2 rootNode n)
   \<and> map blur (generateCityLayout rnd1 now1 rootNode n) =
       map blur (generateCityLayout rnd2 now2 rootNode n)
   \<and> map (\<lambda>c. (cn_id c, cn_type c, cn_parentId c, cn_size c, cn_loc c, cn_extension c, cn_url c))
         (generateCityLayout rnd1 now1 rootNode n) =
       map (\<lambda>c. (cn_id c, cn_type c, cn_parentId c, cn_size c, cn_loc c, cn_extension c, cn_url c))
         (generateCityLayout rnd2 now2 rootNode n)
   \<and> generateCityLayout (\<lambda>i. 0) (\<lambda>i. 0) scenarioB 0 \<noteq>
       generateCityLayout (\<lambda>i. 1 / 2) (\<lambda>i. 0) scenarioB 0"
proof -
  have b: "map blur (generateCityLayout rnd1 now1 rootNode n) =
       map blur (generateCityLayout rnd2 now2 rootNode n)"
    by (simp only: blur_generateCityLayout)
  then have "length (map blur (generateCityLayout rnd1 now1 rootNode n)) =
       length (map blur (generateCityLayout rnd2 now2 rootNode n))"
    by simp
  then have l: "length (generateCityLayout rnd1 now1 rootNode n) =
     length (generateCityLayout rnd2 now2 rootNode n)"
    by simp
  have f: "map (\<lambda>c. (cn_id c, cn_type c, cn_parentId c, cn_size c, cn_loc c, cn_extension c, cn_url c))
         (generateCityLayout rnd1 now1 rootNode n) =
       map (\<lambda>c. (cn_id c, cn_type c, cn_parentId c, cn_size c, cn_loc c, cn_extension c, cn_url c))
         (generateCityLayout rnd2 now2 rootNode n)"
    by (simp add: map_blur_eq blur_def)
  have d: "generateCityLayout (\<lambda>i. 0) (\<lambda>i. 0) scenarioB 0 \<noteq>
       generateCityLayout (\<lambda>i. 1 / 2) (\<lambda>i. 0) scenarioB 0"
    by (simp add: generateCityLayout_def flatten_scenarioB toCityNode_def)
  from l b f d show ?thesis by blast
qed

subsection \<open>A tree of one node\<close>

lemma totalNodes_pos: "0 < totalNodes node"
  by (cases node) simp

lemma flatten_single:
  assumes "totalNodes rootNode = 1"
  shows "flatten rnd rootNode None ([], 0) = ([initialRecord (None, rootNode)], 0)"
proof (cases rootNode)
  case (FileNode nm ty cs lc ct u)
  have "cs = None \<or> cs = Some []"
  proof (cases cs)
    case None
    then show ?thesis by simp
  next
    case (Some children)
    show ?thesis
    proof (cases children)
      case Nil
      with Some show ?thesis by simp
    next
      case (Cons c rest)
      with Some assms FileNode totalNodes_pos [of c] show ?thesis by simp
    qed
  qed
  with FileNode show ?thesis
    by (auto simp: initialRecord_def nodeId_def locOr0_def Let_def)
qed

lemma iteration_single:
  assumes "truthy (sn_parentId r) = None"
    and "sn_position r = Vector3 0 0 0" and "sn_velocity r = Vector3 0 0 0"
  shows "iteration rnd nc ([r], k) = ([r], k)"
proof -
  have c: "calculateForces rnd nc ([r], k) = ([r], k)"
    using assms
    by (cases r)
       (simp add: calculateForces_def calculateForce_def repulsion_def attraction_def
          addV_def subVectors_def multiplyScalar_def setY_def Let_def)
  have u: "updatePositions [r] = [r]"
    using assms
    by (cases r)
       (simp add: updatePositions_def updatePosition_def addV_def multiplyScalar_def setY_def Let_def)
  have "resolvePass nc [r] = [r]"
    by (simp add: resolvePass_def resolvePair_def)
  then have "resolveCollisions nc [r] = [r]"
    by (simp add: resolveCollisions_def)
  with c u show ?thesis by (simp add: iteration_def)
qed

lemma simulate_single:
  assumes "truthy (sn_parentId r) = None"
    and "sn_position r = Vector3 0 0 0" and "sn_velocity r = Vector3 0 0 0"
  shows "simulate rnd nc n ([r], k) = ([r], k)"
  by (induction n) (simp_all add: iteration_single [OF assms])

text \<open>C7: for a tree of one node the array holds the one record, at the origin and at rest, for
  every iteration count; the repulsion loop finds no partner and leaves the force and the random
  counter as they are, the attraction is the one towards the origin, and the exported record
  sits at \<open>(0, targetHeight / 2, 0)\<close>. For the root-only folder \<open>repo\<close> the output is one
  record with position \<open>(0, 0.5, 0)\<close> and size \<open>(15, 1, 15)\<close>.\<close>

theorem C7_single_node:
  assumes "totalNodes rootNode = 1"
  shows "simulatedNodes rnd rootNode n = [initialRecord (None, rootNode)]
   \<and> fold (repulsion rnd 1 (initialRecord (None, rootNode)))
        (simulatedNodes rnd rootNode n) (force, k) = (force, k)
   \<and> attraction 1 (simulatedNodes rnd rootNode n) (initialRecord (None, rootNode)) force =
        addV force (multiplyScalar
           (setY (subVectors (Vector3 0 0 0) (sn_position (initialRecord (None, rootNode)))) 0)
           (ATTRACTION_STRENGTH 1))
   \<and> map (\<lambda>c. (cn_position c, cn_size c)) (generateCityLayout rnd now rootNode n) =
        [((0, (if fn_type rootNode = File then clamp (locOr0 rootNode * 0.5) 2 100 else 1) / 2, 0),
          (if fn_type rootNode = File then 7.5 else 15,
           if fn_type rootNode = File then clamp (locOr0 rootNode * 0.5) 2 100 else 1,
           if fn_type rootNode = File then 7.5 else 15))]
   \<and> map (\<lambda>c. (cn_position c, cn_size c)) (generateCityLayout rnd now scenarioA n) =
        [((0, 0.5, 0), (15, 1, 15))]"
proof -
  let ?r = "initialRecord (None, rootNode)"
  have r: "truthy (sn_parentId ?r) = None" "sn_position ?r = Vector3 0 0 0"
      "sn_velocity ?r = Vector3 0 0 0"
    by (simp_all add: initialRecord_def)
  have sim: "simulatedNodes rnd rootNode n = [?r]"
    by (simp add: simulatedNodes_def flatten_single [OF assms] simulate_single [OF r])
  have rep: "fold (repulsion rnd 1 ?r) (simulatedNodes rnd rootNode n) (force, k) = (force, k)"
    by (simp add: sim repulsion_def)
  have att: "attraction 1 (simulatedNodes rnd rootNode n) ?r force =
        addV force (multiplyScalar
           (setY (subVectors (Vector3 0 0 0) (sn_position ?r)) 0) (ATTRACTION_STRENGTH 1))"
    by (simp add: attraction_def r)
  have out: "map (\<lambda>c. (cn_position c, cn_size c)) (generateCityLayout rnd now rootNode n) =
        [((0, (if fn_type rootNode = File then clamp (locOr0 rootNode * 0.5) 2 100 else 1) / 2, 0),
          (if fn_type rootNode = File then 7.5 else 15,
           if fn_type rootNode = File then clamp (locOr0 rootNode * 0.5) 2 100 else 1,
           if fn_type rootNode = File then 7.5 else 15))]"
    by (simp add: generateCityLayout_export sim toCityNode_def initialRecord_def clamp_def)
  have "totalNodes scenarioA = 1"
    by (simp add: scenarioA_def)
  then have "flatten rnd scenarioA None ([], 0) = ([initialRecord (None, scenarioA)], 0)"
    by (rule flatten_single)
  moreover have "simulate rnd nc n ([initialRecord (None, scenarioA)], 0) =
      ([initialRecord (None, scenarioA)], 0)" for nc
    by (rule simulate_single) (simp_all add: initialRecord_def)
  ultimately have "map (\<lambda>c. (cn_position c, cn_size c)) (generateCityLayout rnd now scenarioA n) =
        [((0, 0.5, 0), (15, 1, 15))]"
    by (simp add: generateCityLayout_def toCityNode_def initialRecord_def scenarioA_def)
  with sim rep att out show ?thesis by blast
qed

theorem C7_single_node_witness:
  "totalNodes scenarioA = 1
   \<and> length (generateCityLayout (\<lambda>i. 0) (\<lambda>i. 0) scenarioA 50) = 1
   \<and> map cn_position (generateCityLayout (\<lambda>i. 0) (\<lambda>i. 0) scenarioA 50) = [(0, 0.5, 0)]
   \<and> map cn_size (generateCityLayout (\<lambda>i. 0) (\<lambda>i. 0) scenarioA 50) = [(15, 1, 15)]"
proof -
  have t: "totalNodes scenarioA = 1"
    by (simp add: scenarioA_def)
  have "map (\<lambda>c. (cn_position c, cn_size c)) (generateCityLayout (\<lambda>i. 0) (\<lambda>i. 0) scenarioA 50) =
        [((0, 0.5, 0), (15, 1, 15))]"
    using C7_single_node [OF t, of "\<lambda>i. 0" 50 "Vector3 0 0 0" 0 "\<lambda>i. 0"] by blast
  then have "length (generateCityLayout (\<lambda>i. 0) (\<lambda>i. 0) scenarioA 50) = 1
     \<and> map cn_position (generateCityLayout (\<lambda>i. 0) (\<lambda>i. 0) scenarioA 50) = [(0, 0.5, 0)]
     \<and> map cn_size (generateCityLayout (\<lambda>i. 0) (\<lambda>i. 0) scenarioA 50) = [(15, 1, 15)]"
    by (cases "generateCityLayout (\<lambda>i. 0) (\<lambda>i. 0) scenarioA 50") auto
  with t show ?thesis by blast
qed

subsection \<open>The integration step\<close>

lemma spacingMultiplier_2: "spacingMultiplier 2 = 1"
proof -
  have "ln (2::real) \<le> 2 - 1"
    by (rule ln_le_minus_one) simp
  then show ?thesis
    by (simp add: spacingMultiplier_def max_def)
qed

lemma constants_2:
  "PADDING 2 = 15" "ATTRACTION_STRENGTH 2 = 1 / 100" "REPULSION_STRENGTH 2 = 2000"
  by (simp_all add: PADDING_def ATTRACTION_STRENGTH_def REPULSION_STRENGTH_def
      spacingMultiplier_2)

lemma velocity_update:
  assumes "\<And>s p. f (s\<lparr>sn_position := p\<rparr>) = f s"
    and "f a = f (ns ! i)" and "f b = f (ns ! j)"
  shows "map f (ns[i := a, j := b]) = map f ns"
proof (rule nth_equalityI)
  show "length (map f (ns[i := a, j := b])) = length (map f ns)" by simp
next
  fix m assume "m < length (map f (ns[i := a, j := b]))"
  then show "map f (ns[i := a, j := b]) ! m = map f ns ! m"
    using assms(2,3) by (cases "m = j"; cases "m = i") simp_all
qed

lemma resolvePair_keeps:
  assumes "\<And>s p. f (s\<lparr>sn_position := p\<rparr>) = f s"
  shows "map f (resolvePair nc i j ns) = map f ns"
  by (simp add: resolvePair_def Let_def velocity_update [OF assms] assms)

lemma fold_resolvePair_keeps:
  assumes "\<And>s p. f (s\<lparr>sn_position := p\<rparr>) = f s"
  shows "map f (fold (resolvePair nc i) js ns) = map f ns"
  by (induction js arbitrary: ns) (simp_all add: resolvePair_keeps [OF assms])

lemma fold_resolve_keeps:
  assumes "\<And>s p. f (s\<lparr>sn_position := p\<rparr>) = f s"
  shows "map f (fold (\<lambda>i ns. fold (resolvePair nc i) [0 ..< length ns] ns) js ns) = map f ns"
  by (induction js arbitrary: ns) (simp_all add: fold_resolvePair_keeps [OF assms])

lemma resolveCollisions_keeps:
  assumes "\<And>s p. f (s\<lparr>sn_position := p\<rparr>) = f s"
  shows "map f (resolveCollisions nc ns) = map f ns"
  by (simp add: resolveCollisions_def resolvePass_def fold_resolve_keeps [OF assms])

lemma iteration_fst:
  "fst (iteration rnd nc st) =
     resolveCollisions nc (updatePositions (fst (calculateForces rnd nc st)))"
  by (simp add: iteration_def split: prod.splits)

lemma calculateForces_scenarioB:
  "calculateForces (\<lambda>i. 0) 2 (flatten (\<lambda>i. 0) scenarioB None ([], 0)) =
     ([(initialRecord (None, scenarioB))\<lparr>sn_childrenIds := [''repo/a.ts'']\<rparr>,
       (initialRecord (Some ''repo'', FileNode ''a.ts'' File None (Some 100) None None))
         \<lparr>sn_position := Vector3 (- 50) 0 (- 50), sn_velocity := Vector3 0.05 0 0.05\<rparr>], 2)"
  by (simp add: flatten_scenarioB calculateForces_def calculateForce_def repulsion_def
      attraction_def constants_2 initialRecord_def scenarioB_def nodeId_def locOr0_def
      addV_def subVectors_def multiplyScalar_def setY_def lengthSq_def TIME_STEP_def Let_def)

text \<open>C2: the claim has the stored velocity damped by 0.9 only. The code scales the stored
  velocity twice, by \<open>DAMPING\<close> and then, in place, by \<open>TIME_STEP\<close>
  (\<^verbatim>\<open>node.position.add(node.velocity.multiplyScalar(TIME_STEP))\<close>), so what is carried into
  the next round is 0.09 times the velocity after the force update. On Scenario B with every
  draw 0 the file has velocity \<open>(0.05, 0, 0.05)\<close> after the force update of the first round
  and \<open>(0.0045, 0, 0.0045)\<close> at its end, not \<open>(0.045, 0, 0.045)\<close>.\<close>

theorem C2_velocity_scaled_twice:
  "sn_velocity (updatePosition node) = multiplyScalar (sn_velocity node) 0.09
   \<and> sn_position (updatePosition node) =
       setY (addV (sn_position node)
               (multiplyScalar (multiplyScalar (sn_velocity node) DAMPING) TIME_STEP)) 0
   \<and> map sn_velocity (fst (calculateForces (\<lambda>i. 0) 2 (flatten (\<lambda>i. 0) scenarioB None ([], 0))))
       = [Vector3 0 0 0, Vector3 0.05 0 0.05]
   \<and> map sn_velocity (simulatedNodes (\<lambda>i. 0) scenarioB 1)
       = [Vector3 0 0 0, Vector3 0.0045 0 0.0045]
   \<and> map sn_velocity (simulatedNodes (\<lambda>i. 0) scenarioB 1)
       \<noteq> [Vector3 0 0 0, multiplyScalar (Vector3 0.05 0 0.05) DAMPING]"
proof -
  have a: "sn_velocity (updatePosition node) = multiplyScalar (sn_velocity node) 0.09"
    by (simp add: updatePosition_def Let_def multiplyScalar_def DAMPING_def TIME_STEP_def)
  have b: "sn_position (updatePosition node) =
       setY (addV (sn_position node)
               (multiplyScalar (multiplyScalar (sn_velocity node) DAMPING) TIME_STEP)) 0"
    by (simp add: updatePosition_def Let_def)
  have c: "map sn_velocity (fst (calculateForces (\<lambda>i. 0) 2 (flatten (\<lambda>i. 0) scenarioB None ([], 0))))
       = [Vector3 0 0 0, Vector3 0.05 0 0.05]"
    by (simp add: calculateForces_scenarioB initialRecord_def)
  have "length (fst (flatten (\<lambda>i. 0) scenarioB None ([], 0))) = 2"
    by (simp add: flatten_scenarioB)
  then have "simulatedNodes (\<lambda>i. 0) scenarioB 1 =
      fst (iteration (\<lambda>i. 0) 2 (flatten (\<lambda>i. 0) scenarioB None ([], 0)))"
    by (simp add: simulatedNodes_def split_def)
  then have "map sn_velocity (simulatedNodes (\<lambda>i. 0) scenarioB 1) =
      map sn_velocity (updatePositions
        (fst (calculateForces (\<lambda>i. 0) 2 (flatten (\<lambda>i. 0) scenarioB None ([], 0)))))"
    by (simp add: iteration_fst resolveCollisions_keeps)
  then have d: "map sn_velocity (simulatedNodes (\<lambda>i. 0) scenarioB 1)
       = [Vector3 0 0 0, Vector3 0.0045 0 0.0045]"
    by (simp add: calculateForces_scenarioB updatePositions_def updatePosition_def Let_def
        initialRecord_def multiplyScalar_def DAMPING_def TIME_STEP_def)
  have e: "map sn_velocity (simulatedNodes (\<lambda>i. 0) scenarioB 1)
       \<noteq> [Vector3 0 0 0, multiplyScalar (Vector3 0.05 0 0.05) DAMPING]"
    unfolding d by (simp add: multiplyScalar_def DAMPING_def)
  from a b c d e show ?thesis by blast
qed

subsection \<open>Two records pushed apart\<close>








subsection \<open>Scenario B, round by round\<close>

























subsection \<open>Degenerate draws\<close>




subsection \<open>Invariants of the traversal\<close>

lemma parentsPrecede_iff:
  "parentsPrecede ns \<longleftrightarrow>
     (\<forall>j<length ns. \<forall>p. truthy (sn_parentId (ns ! j)) = Some p \<longrightarrow> p \<in> sn_id ` set (take j ns))"
  by (auto simp: parentsPrecede_def split: option.splits)

lemma parentKnown_iff:
  "parentKnown parentId st \<longleftrightarrow> (\<forall>p. truthy parentId = Some p \<longrightarrow> p \<in> sn_id ` set (fst st))"
  by (auto simp: parentKnown_def split: option.splits)

lemma length_pushChild: "length (pushChild p c ns) = length ns"
  by (induction ns) simp_all

lemma core_pushChild: "map core (pushChild p c ns) = map core ns"
  by (induction ns) (simp_all add: core_def)

lemma pushChild_append:
  "p \<in> sn_id ` set ns \<Longrightarrow> pushChild p c (ns @ ms) = pushChild p c ns @ ms"
  by (induction ns) auto

lemma childrenIds_pushChild:
  "i < length ns \<Longrightarrow>
     sn_childrenIds (pushChild p c ns ! i) =
       (if sn_id (ns ! i) = p \<and> p \<notin> sn_id ` set (take i ns)
        then sn_childrenIds (ns ! i) @ [c] else sn_childrenIds (ns ! i))"
proof (induction ns arbitrary: i)
  case Nil
  then show ?case by simp
next
  case (Cons n ns)
  show ?case
  proof (cases i)
    case 0
    then show ?thesis by simp
  next
    case (Suc i')
    with Cons.prems have "i' < length ns" by simp
    from Cons.IH [OF this] Suc show ?thesis by simp
  qed
qed

lemma find_core:
  "find (\<lambda>n. sn_id n = p) (map core ns) = map_option core (find (\<lambda>n. sn_id n = p) ns)"
  by (induction ns) (simp_all add: core_def)

lemma place_core: "place rnd (map core ns) pid k = place rnd ns pid k"
  by (simp add: place_def find_core core_def split: option.splits)

lemma admitNode_core:
  "map core (fst (admitNode rnd node pid (ns, k))) =
     map core ns @ [(initialRecord (pid, node))\<lparr>sn_position := place rnd ns pid k\<rparr>]"
  by (simp add: admitNode_def Let_def core_pushChild place_def jitter_def split: option.splits)
     (simp_all add: core_def initialRecord_def)

lemma admitNode_snd:
  "parentKnown pid (ns, k) \<Longrightarrow>
     snd (admitNode rnd node pid (ns, k)) = (if truthy pid = None then k else k + 2)"
  by (auto simp: admitNode_def Let_def parentKnown_iff find_None_iff split: option.splits)

lemma map_sn_id_core: "map sn_id (map core xs) = map sn_id xs"
  by (induction xs) (simp_all add: core_def)

lemma admitNode_ids:
  "map sn_id (fst (admitNode rnd node pid (ns, k))) = map sn_id ns @ [nodeId pid (fn_name node)]"
proof -
  have "map sn_id (map core (fst (admitNode rnd node pid (ns, k)))) =
      map sn_id (map core ns) @ [nodeId pid (fn_name node)]"
    unfolding admitNode_core by (simp add: initialRecord_def)
  then show ?thesis by (simp only: map_sn_id_core)
qed

lemma ids_image: "sn_id ` set ns = set (map sn_id ns)"
  by simp

lemma parentKnown_admitNode:
  "parentKnown pid' st \<Longrightarrow> parentKnown pid' (admitNode rnd node pid st)"
  "parentKnown (Some (nodeId pid (fn_name node))) (admitNode rnd node pid st)"
  by (cases st; simp add: parentKnown_iff ids_image admitNode_ids del: set_map; auto)+

lemma flatten_forEach_invariant:
  assumes "\<And>c pid st. c \<in> set cs \<Longrightarrow> I st \<Longrightarrow> parentKnown pid st \<Longrightarrow>
      I (flatten rnd c pid st) \<and> (\<forall>pid'. parentKnown pid' st \<longrightarrow> parentKnown pid' (flatten rnd c pid st))"
  shows "I st \<Longrightarrow> parentKnown (Some ident) st \<Longrightarrow>
      I (flatten_forEach rnd cs ident st) \<and>
      (\<forall>pid'. parentKnown pid' st \<longrightarrow> parentKnown pid' (flatten_forEach rnd cs ident st))"
  using assms
proof (induction cs arbitrary: st)
  case Nil
  then show ?case by simp
next
  case (Cons c cs)
  have 1: "I (flatten rnd c (Some ident) st) \<and>
      (\<forall>pid'. parentKnown pid' st \<longrightarrow> parentKnown pid' (flatten rnd c (Some ident) st))"
    using Cons.prems by simp
  then have 2: "parentKnown (Some ident) (flatten rnd c (Some ident) st)"
    using Cons.prems(2) by blast
  have "I (flatten_forEach rnd cs ident (flatten rnd c (Some ident) st)) \<and>
      (\<forall>pid'. parentKnown pid' (flatten rnd c (Some ident) st) \<longrightarrow>
         parentKnown pid' (flatten_forEach rnd cs ident (flatten rnd c (Some ident) st)))"
    using 1 2 Cons.prems(3) by (intro Cons.IH) auto
  with 1 show ?case by simp
qed

lemma flatten_invariant:
  assumes step: "\<And>node pid st. I st \<Longrightarrow> parentKnown pid st \<Longrightarrow> length (fst st) < 400 \<Longrightarrow>
      I (admitNode rnd node pid st)"
  shows "I st \<Longrightarrow> parentKnown pid st \<Longrightarrow>
      I (flatten rnd node pid st) \<and>
      (\<forall>pid'. parentKnown pid' st \<longrightarrow> parentKnown pid' (flatten rnd node pid st))"
proof (induction node arbitrary: pid st)
  case (FileNode nm ty cs lc ct u)
  obtain nodes k where st: "st = (nodes, k)" by (cases st)
  show ?case
  proof (cases "400 \<le> length nodes")
    case True
    with FileNode.prems st show ?thesis by (simp add: flatten_unfold del: flatten.simps)
  next
    case False
    let ?st1 = "admitNode rnd (FileNode nm ty cs lc ct u) pid st"
    have i1: "I ?st1"
      using FileNode.prems False st by (intro step) simp_all
    have k1: "parentKnown (Some (nodeId pid nm)) ?st1"
      using parentKnown_admitNode(2) [of pid "FileNode nm ty cs lc ct u" rnd st] by simp
    have m1: "\<forall>pid'. parentKnown pid' st \<longrightarrow> parentKnown pid' ?st1"
      by (simp add: parentKnown_admitNode(1))
    show ?thesis
    proof (cases cs)
      case None
      with False st i1 m1 show ?thesis by (simp add: flatten_unfold del: flatten.simps)
    next
      case (Some children)
      have "I (flatten_forEach rnd children (nodeId pid nm) ?st1) \<and>
          (\<forall>pid'. parentKnown pid' ?st1 \<longrightarrow>
             parentKnown pid' (flatten_forEach rnd children (nodeId pid nm) ?st1))"
        using FileNode.IH Some
        by (intro flatten_forEach_invariant [where I = I, OF _ i1 k1]) auto
      with False st m1 Some show ?thesis by (simp add: flatten_unfold del: flatten.simps)
    qed
  qed
qed

lemma parentsPrecede_snoc:
  assumes "parentsPrecede C" and "\<forall>p. truthy (sn_parentId new) = Some p \<longrightarrow> p \<in> sn_id ` set C"
  shows "parentsPrecede (C @ [new])"
  unfolding parentsPrecede_iff
proof (intro allI impI)
  fix j p
  assume j: "j < length (C @ [new])" and t: "truthy (sn_parentId ((C @ [new]) ! j)) = Some p"
  show "p \<in> sn_id ` set (take j (C @ [new]))"
  proof (cases "j < length C")
    case True
    with assms(1) t have "p \<in> sn_id ` set (take j C)"
      by (simp add: parentsPrecede_iff nth_append)
    with True show ?thesis by simp
  next
    case False
    with j have "j = length C" by simp
    with assms(2) t show ?thesis by simp
  qed
qed

lemma draws_snoc:
  "draws (C @ [new]) = (if truthy (sn_parentId new) = None then draws C else draws C + 2)"
  by (simp add: draws_def)

lemma placed_snoc:
  assumes "placed rnd C k"
    and "\<forall>p. truthy pid = Some p \<longrightarrow> p \<in> sn_id ` set C"
    and "sn_parentId new = pid" and "sn_position new = place rnd C pid k"
  shows "placed rnd (C @ [new]) (if truthy pid = None then k else k + 2)"
proof -
  have pp: "parentsPrecede C" and k: "k = draws C"
    and pos: "\<And>j. j < length C \<Longrightarrow>
       sn_position (C ! j) = place rnd (take j C) (sn_parentId (C ! j)) (draws (take j C))"
    using assms(1) by (simp_all add: placed_def)
  have 1: "parentsPrecede (C @ [new])"
    using pp assms(2,3) by (intro parentsPrecede_snoc) simp_all
  have 2: "(if truthy pid = None then k else k + 2) = draws (C @ [new])"
    by (simp add: draws_snoc assms(3) k)
  have 3: "sn_position ((C @ [new]) ! j) =
      place rnd (take j (C @ [new])) (sn_parentId ((C @ [new]) ! j)) (draws (take j (C @ [new])))"
    if "j < length (C @ [new])" for j
  proof (cases "j < length C")
    case True
    then show ?thesis using pos [of j] by (simp add: nth_append)
  next
    case False
    with that have "j = length C" by simp
    then show ?thesis by (simp add: assms(3,4) k)
  qed
  from 1 2 3 show ?thesis
    unfolding placed_def by blast
qed

lemma ids_core: "sn_id ` set (map core ns) = sn_id ` set ns"
  by (simp add: image_image core_def)

lemma placed_admitNode:
  assumes "placed rnd (map core (fst st)) (snd st)" and "parentKnown pid st"
  shows "placed rnd (map core (fst (admitNode rnd node pid st))) (snd (admitNode rnd node pid st))"
proof -
  obtain ns k where st: "st = (ns, k)" by (cases st)
  let ?new = "(initialRecord (pid, node))\<lparr>sn_position := place rnd ns pid k\<rparr>"
  have "placed rnd (map core ns @ [?new]) (if truthy pid = None then k else k + 2)"
  proof (rule placed_snoc)
    show "placed rnd (map core ns) k" using assms(1) st by simp
    show "\<forall>p. truthy pid = Some p \<longrightarrow> p \<in> sn_id ` set (map core ns)"
      using assms(2) st unfolding ids_core by (simp add: parentKnown_iff)
    show "sn_parentId ?new = pid" by (simp add: initialRecord_def)
    show "sn_position ?new = place rnd (map core ns) pid k" by (simp add: place_core)
  qed
  then show ?thesis
    using assms(2) by (simp add: st admitNode_core admitNode_snd)
qed

lemma placed_flatten:
  "placed rnd (map core (fst (flatten rnd rootNode None ([], 0))))
     (snd (flatten rnd rootNode None ([], 0)))"
proof -
  have 0: "placed rnd (map core (fst ([], 0::nat))) (snd ([], 0::nat))"
    by (simp add: placed_def parentsPrecede_iff draws_def)
  have k: "parentKnown None ([], 0)"
    by (simp add: parentKnown_iff)
  have "placed rnd (map core (fst (flatten rnd rootNode None ([], 0))))
      (snd (flatten rnd rootNode None ([], 0))) \<and>
    (\<forall>pid'. parentKnown pid' ([], 0) \<longrightarrow> parentKnown pid' (flatten rnd rootNode None ([], 0)))"
    using 0 k
    by (rule flatten_invariant [where I = "\<lambda>st. placed rnd (map core (fst st)) (snd st)",
          rotated]) (rule placed_admitNode)
  then show ?thesis by blast
qed

lemma preorder_truthy:
  "nodeId pid (fn_name node) \<noteq> [] \<Longrightarrow> \<forall>x \<in> set (tl (preorder pid node)). truthy (fst x) \<noteq> None"
  "ident \<noteq> [] \<Longrightarrow> \<forall>x \<in> set (preorder_forEach ident cs). truthy (fst x) \<noteq> None"
proof (induction pid node and ident cs rule: preorder_preorder_forEach.induct)
  case (1 parentId nm ty cs lc ct u)
  then show ?case by (cases cs) simp_all
next
  case (2 ident)
  then show ?case by simp
next
  case (3 ident child rest)
  have n: "nodeId (Some ident) (fn_name child) \<noteq> []"
    using "3.prems" by (simp add: nodeId_def)
  have "\<forall>x \<in> set (tl (preorder (Some ident) child)). truthy (fst x) \<noteq> None"
    using "3.IH"(1) n by simp
  moreover have "preorder (Some ident) child = (Some ident, child) # tl (preorder (Some ident) child)"
    by (cases child) simp
  ultimately have "\<forall>x \<in> set (preorder (Some ident) child). truthy (fst x) \<noteq> None"
    using "3.prems" by (metis fst_conv option.distinct(1) set_ConsD truthy.simps(2))
  with "3.IH"(2) "3.prems" show ?case by auto
qed

lemma preorder_Cons: "preorder pid node = (pid, node) # tl (preorder pid node)"
  by (cases node) simp

lemma simulatedNodes_0: "simulatedNodes rnd rootNode 0 = fst (flatten rnd rootNode None ([], 0))"
  by (simp add: simulatedNodes_def split_def)

lemma parentIds_flatten:
  "map sn_parentId (fst (flatten rnd rootNode None ([], 0))) =
     take 400 (map fst (preorder None rootNode))"
proof -
  have "map sn_parentId (simulatedNodes rnd rootNode 0) =
      map (\<lambda>x. sn_parentId (initialRecord x)) (take 400 (preorder None rootNode))"
    by (rule map_skeleton_eq) (simp add: skeleton_def)
  then show ?thesis
    by (simp add: simulatedNodes_0 initialRecord_def take_map split_def)
qed

lemma flatten_nonempty: "0 < length (fst (flatten rnd rootNode None ([], 0)))"
proof -
  have "length (map sn_parentId (fst (flatten rnd rootNode None ([], 0)))) =
      min (totalNodes rootNode) 400"
    unfolding parentIds_flatten by (simp add: length_preorder)
  then show ?thesis
    using totalNodes_pos [of rootNode] by simp
qed

lemma flatten_parentIds_truthy:
  assumes "fn_name rootNode \<noteq> []" and "j < length (fst (flatten rnd rootNode None ([], 0)))"
  shows "(truthy (sn_parentId (fst (flatten rnd rootNode None ([], 0)) ! j)) = None) = (j = 0)"
    and "0 < j \<Longrightarrow> sn_parentId (fst (flatten rnd rootNode None ([], 0)) ! j) \<noteq> None"
    and "truthy (sn_parentId (fst (flatten rnd rootNode None ([], 0)) ! j)) =
           sn_parentId (fst (flatten rnd rootNode None ([], 0)) ! j)"
proof -
  let ?ns = "fst (flatten rnd rootNode None ([], 0))"
  let ?xs = "preorder None rootNode"
  have len: "j < length (map sn_parentId ?ns)" using assms(2) by simp
  then have j: "j < 400" "j < length ?xs"
    unfolding parentIds_flatten by simp_all
  have "sn_parentId (?ns ! j) = map sn_parentId ?ns ! j"
    using assms(2) by simp
  then have pj: "sn_parentId (?ns ! j) = fst (?xs ! j)"
    unfolding parentIds_flatten using j by simp
  have t: "\<forall>x \<in> set (tl ?xs). truthy (fst x) \<noteq> None"
    using assms(1) by (intro preorder_truthy(1)) (simp add: nodeId_def)
  have c: "?xs = (None, rootNode) # tl ?xs" by (rule preorder_Cons)
  have a: "(truthy (fst (?xs ! j)) = None) = (j = 0)"
  proof (cases j)
    case 0
    then show ?thesis by (subst c) simp
  next
    case (Suc j')
    with j(2) have "j' < length (tl ?xs)" by simp
    then have "tl ?xs ! j' \<in> set (tl ?xs)" by (rule nth_mem)
    with t have "truthy (fst (tl ?xs ! j')) \<noteq> None" by blast
    moreover have "?xs ! j = tl ?xs ! j'" using Suc by (subst c) simp
    ultimately show ?thesis using Suc by simp
  qed
  have z: "fst (?xs ! 0) = None"
    by (subst c) simp
  show 1: "(truthy (sn_parentId (?ns ! j)) = None) = (j = 0)"
    using a pj by simp
  show "truthy (sn_parentId (?ns ! j)) = sn_parentId (?ns ! j)"
  proof (cases "j = 0")
    case True
    with pj z show ?thesis by simp
  next
    case False
    with 1 show ?thesis
      by (cases "sn_parentId (?ns ! j)") (auto split: if_splits)
  qed
  show "0 < j \<Longrightarrow> sn_parentId (?ns ! j) \<noteq> None"
    using 1 by (cases "sn_parentId (?ns ! j)") auto
qed

lemma draws_take:
  assumes "\<And>i. i < length C \<Longrightarrow> (truthy (sn_parentId (C ! i)) = None) = (i = 0)"
  shows "j \<le> length C \<Longrightarrow> draws (take j C) = 2 * (j - 1)"
proof (induction j)
  case 0
  then show ?case by (simp add: draws_def)
next
  case (Suc j)
  then have j: "j < length C" by simp
  have "draws (take (Suc j) C) = draws (take j C @ [C ! j])"
    using j by (simp add: take_Suc_conv_app_nth)
  also have "\<dots> = (if j = 0 then draws (take j C) else draws (take j C) + 2)"
    using assms [OF j] by (simp add: draws_snoc)
  also have "\<dots> = 2 * (Suc j - 1)"
    using Suc by (cases j) simp_all
  finally show ?case .
qed

lemma flatten_placement:
  assumes name: "fn_name rootNode \<noteq> []"
    and j: "0 < j" "j < length (fst (flatten rnd rootNode None ([], 0)))"
  shows "\<exists>i<j. sn_parentId (fst (flatten rnd rootNode None ([], 0)) ! j) =
             Some (sn_id (fst (flatten rnd rootNode None ([], 0)) ! i))
     \<and> (\<forall>i'<i. sn_id (fst (flatten rnd rootNode None ([], 0)) ! i') \<noteq>
                 sn_id (fst (flatten rnd rootNode None ([], 0)) ! i))
     \<and> sn_position (fst (flatten rnd rootNode None ([], 0)) ! j) =
         addV (sn_position (fst (flatten rnd rootNode None ([], 0)) ! i)) (jitter rnd (2 * (j - 1)))"
proof -
  let ?ns = "fst (flatten rnd rootNode None ([], 0))"
  let ?C = "map core ?ns"
  have pl: "placed rnd ?C (snd (flatten rnd rootNode None ([], 0)))"
    by (rule placed_flatten)
  have tr: "(truthy (sn_parentId (?C ! i)) = None) = (i = 0)" if "i < length ?C" for i
    using flatten_parentIds_truthy(1) [OF name, of i rnd] that by (simp add: core_def)
  have dr: "draws (take j ?C) = 2 * (j - 1)"
    using j(2) by (intro draws_take tr) simp_all
  obtain p where p: "truthy (sn_parentId (?C ! j)) = Some p"
    using tr [of j] j by auto
  have pid: "sn_parentId (?ns ! j) = Some p"
    using p flatten_parentIds_truthy(3) [OF name j(2)] j(2) by (simp add: core_def)
  have "p \<in> sn_id ` set (take j ?C)"
    using pl p j(2) by (simp add: placed_def parentsPrecede_iff)
  then have "find (\<lambda>n. sn_id n = p) (take j ?C) \<noteq> None"
    by (auto simp: find_None_iff)
  then obtain parent where f: "find (\<lambda>n. sn_id n = p) (take j ?C) = Some parent"
    by blast
  then obtain i where i: "i < length (take j ?C)" "sn_id (take j ?C ! i) = p"
      "parent = take j ?C ! i" "\<forall>i'<i. sn_id (take j ?C ! i') \<noteq> p"
    unfolding find_Some_iff by blast
  have ij: "i < j" using i(1) by simp
  have par: "parent = core (?ns ! i)" using i(3) ij j(2) by simp
  have "sn_position (?C ! j) = place rnd (take j ?C) (sn_parentId (?C ! j)) (draws (take j ?C))"
    using pl j(2) by (simp add: placed_def)
  then have "sn_position (?C ! j) = addV (sn_position parent) (jitter rnd (2 * (j - 1)))"
    by (simp add: place_def p f dr)
  then have pos: "sn_position (?ns ! j) = addV (sn_position (?ns ! i)) (jitter rnd (2 * (j - 1)))"
    using j(2) by (simp add: par core_def)
  have id: "sn_id (?ns ! i) = p"
    using i(2) ij j(2) by (simp add: core_def)
  have first: "\<forall>i'<i. sn_id (?ns ! i') \<noteq> sn_id (?ns ! i)"
  proof (intro allI impI)
    fix i' assume "i' < i"
    with i(4) ij j(2) have "sn_id (take j ?C ! i') \<noteq> p" by blast
    with \<open>i' < i\<close> ij j(2) show "sn_id (?ns ! i') \<noteq> sn_id (?ns ! i)"
      by (simp add: id core_def)
  qed
  from ij pid id pos first show ?thesis by blast
qed

lemma flatten_root_placement:
  "sn_position (fst (flatten rnd rootNode None ([], 0)) ! 0) = Vector3 0 0 0"
proof -
  let ?ns = "fst (flatten rnd rootNode None ([], 0))"
  have "placed rnd (map core ?ns) (snd (flatten rnd rootNode None ([], 0)))"
    by (rule placed_flatten)
  then have "sn_position (map core ?ns ! 0) =
      place rnd (take 0 (map core ?ns)) (sn_parentId (map core ?ns ! 0)) (draws (take 0 (map core ?ns)))"
    using flatten_nonempty [of rnd rootNode] unfolding placed_def by auto
  then have "sn_position (map core ?ns ! 0) = Vector3 0 0 0"
    by (simp add: place_def split: option.splits)
  then show ?thesis
    using flatten_nonempty [of rnd rootNode] by (simp add: core_def)
qed

text \<open>C9, as amended: with no iteration the loop does nothing, and the output carries the
  horizontal coordinates the traversal gave: the root at the origin and, when the root's name
  is not the empty string, every other record at the position of the first record carrying
  its \<open>parentId\<close> (its parent, when ids are distinct) plus the offset drawn for it, the draws
  \<open>2 (j - 1)\<close> and \<open>2 (j - 1) + 1\<close> for the record at index \<open>j\<close>. Positions are written
  once, when a record is created, so the parent's position is the one it had then.\<close>

theorem C9_zero_iterations:
  assumes "fn_name rootNode \<noteq> []"
  shows "simulate rnd nodeCount 0 st = st
   \<and> map (\<lambda>c. (fst (cn_position c), snd (snd (cn_position c))))
         (generateCityLayout rnd now rootNode 0) =
       map (\<lambda>s. (vx (sn_position s), vz (sn_position s)))
         (fst (flatten rnd rootNode None ([], 0)))
   \<and> sn_position (fst (flatten rnd rootNode None ([], 0)) ! 0) = Vector3 0 0 0
   \<and> (\<forall>j. 0 < j \<and> j < length (fst (flatten rnd rootNode None ([], 0))) \<longrightarrow>
        (\<exists>i<j. sn_parentId (fst (flatten rnd rootNode None ([], 0)) ! j) =
                  Some (sn_id (fst (flatten rnd rootNode None ([], 0)) ! i))
           \<and> (\<forall>i'<i. sn_id (fst (flatten rnd rootNode None ([], 0)) ! i') \<noteq>
                       sn_id (fst (flatten rnd rootNode None ([], 0)) ! i))
           \<and> sn_position (fst (flatten rnd rootNode None ([], 0)) ! j) =
               addV (sn_position (fst (flatten rnd rootNode None ([], 0)) ! i))
                 (jitter rnd (2 * (j - 1)))))"
proof -
  have "simulatedNodes rnd rootNode 0 = fst (flatten rnd rootNode None ([], 0))"
    by (simp add: simulatedNodes_def split_def)
  then have "map (\<lambda>c. (fst (cn_position c), snd (snd (cn_position c))))
         (generateCityLayout rnd now rootNode 0) =
       map (\<lambda>s. (vx (sn_position s), vz (sn_position s)))
         (fst (flatten rnd rootNode None ([], 0)))"
    unfolding generateCityLayout_export
    by (simp add: map_export [where g = "\<lambda>s. (vx (sn_position s), vz (sn_position s))"]
        toCityNode_def)
  then show ?thesis
    using flatten_placement [OF assms] flatten_root_placement by simp
qed

lemma kids_core:
  "map sn_id (filter (\<lambda>c. truthy (sn_parentId c) = Some x) (map core ns)) =
     map sn_id (filter (\<lambda>c. truthy (sn_parentId c) = Some x) ns)"
  by (induction ns) (simp_all add: core_def)

lemma parentsPrecede_core: "parentsPrecede (map core ns) = parentsPrecede ns"
  by (simp add: parentsPrecede_iff take_map image_image core_def)

lemma kids_unknown:
  assumes "parentsPrecede ns" and "x \<notin> sn_id ` set ns"
  shows "filter (\<lambda>c. truthy (sn_parentId c) = Some x) ns = []"
proof -
  have "truthy (sn_parentId c) \<noteq> Some x" if "c \<in> set ns" for c
  proof
    assume t: "truthy (sn_parentId c) = Some x"
    from that obtain j where j: "j < length ns" "c = ns ! j"
      by (auto simp: in_set_conv_nth)
    with assms(1) t have "x \<in> sn_id ` set (take j ns)"
      by (simp add: parentsPrecede_iff)
    then have "x \<in> sn_id ` set ns"
      using set_take_subset [of j ns] by blast
    with assms(2) show False by simp
  qed
  then show ?thesis by (simp add: filter_empty_conv)
qed

lemma nodeId_neq_parent: "truthy pid = Some p \<Longrightarrow> nodeId pid nm \<noteq> p"
  by (simp add: nodeId_def)

lemma admitNode_falsy:
  "truthy pid = None \<Longrightarrow>
     fst (admitNode rnd node pid (ns, k)) = ns @ [initialRecord (pid, node)]"
  by (simp add: admitNode_def Let_def initialRecord_def)

lemma admitNode_truthy:
  assumes "truthy pid = Some p" and "p \<in> sn_id ` set ns"
  shows "\<exists>new. fst (admitNode rnd node pid (ns, k)) =
            pushChild p (nodeId pid (fn_name node)) ns @ [new]
     \<and> sn_id new = nodeId pid (fn_name node) \<and> sn_parentId new = pid \<and> sn_childrenIds new = []"
  using assms
  by (simp add: admitNode_def Let_def pushChild_append initialRecord_def)

lemma childrenLinked_admitNode:
  assumes pp: "parentsPrecede (fst st)" and cl: "childrenLinked (fst st)"
    and pk: "parentKnown pid st"
  shows "parentsPrecede (fst (admitNode rnd node pid st)) \<and>
     childrenLinked (fst (admitNode rnd node pid st))"
proof -
  obtain ns k where st: "st = (ns, k)" by (cases st)
  let ?ident = "nodeId pid (fn_name node)"
  let ?ns' = "fst (admitNode rnd node pid (ns, k))"
  have pp': "parentsPrecede ?ns'"
  proof -
    have "parentsPrecede (map core ns @
        [(initialRecord (pid, node))\<lparr>sn_position := place rnd ns pid k\<rparr>])"
      using pp pk st
      by (intro parentsPrecede_snoc)
         (simp_all add: parentsPrecede_core parentKnown_iff ids_core initialRecord_def
            del: set_map)
    then show ?thesis
      by (simp only: admitNode_core [symmetric] parentsPrecede_core)
  qed
  have old: "sn_childrenIds (ns ! i) =
      (if sn_id (ns ! i) \<in> sn_id ` set (take i ns) then []
       else map sn_id (filter (\<lambda>c. truthy (sn_parentId c) = Some (sn_id (ns ! i))) ns))"
    if "i < length ns" for i
    using cl that st by (simp add: childrenLinked_def)
  have "childrenLinked ?ns'"
  proof (cases "truthy pid")
    case None
    then have ns': "?ns' = ns @ [initialRecord (pid, node)]"
      by (rule admitNode_falsy)
    have new: "sn_parentId (initialRecord (pid, node)) = pid"
        "sn_childrenIds (initialRecord (pid, node)) = []"
      by (simp_all add: initialRecord_def)
    show ?thesis
      unfolding childrenLinked_def ns'
    proof (intro allI impI)
      fix i assume i: "i < length (ns @ [initialRecord (pid, node)])"
      show "sn_childrenIds ((ns @ [initialRecord (pid, node)]) ! i) =
        (if sn_id ((ns @ [initialRecord (pid, node)]) ! i)
              \<in> sn_id ` set (take i (ns @ [initialRecord (pid, node)])) then []
         else map sn_id (filter (\<lambda>c. truthy (sn_parentId c) =
                 Some (sn_id ((ns @ [initialRecord (pid, node)]) ! i)))
               (ns @ [initialRecord (pid, node)])))"
      proof (cases "i < length ns")
        case True
        then show ?thesis using old [OF True] by (simp add: nth_append new None)
      next
        case False
        with i have "i = length ns" by simp
        then show ?thesis
          using kids_unknown [OF pp [unfolded st fst_conv]]
          by (simp add: new None)
      qed
    qed
  next
    case (Some p)
    have p: "p \<in> sn_id ` set ns"
      using pk Some st by (simp add: parentKnown_iff)
    obtain new where ns': "?ns' = pushChild p ?ident ns @ [new]"
      and new: "sn_id new = ?ident" "sn_parentId new = pid" "sn_childrenIds new = []"
      using admitNode_truthy [OF Some p] by blast
    have ne: "?ident \<noteq> p" using Some by (rule nodeId_neq_parent)
    have "map sn_id (map core (pushChild p ?ident ns)) = map sn_id (map core ns)"
      by (simp only: core_pushChild)
    then have ids: "map sn_id (pushChild p ?ident ns) = map sn_id ns"
      by (simp only: map_sn_id_core)
    have len: "length (pushChild p ?ident ns) = length ns"
      by (rule length_pushChild)
    have idn: "sn_id (pushChild p ?ident ns ! i) = sn_id (ns ! i)" if "i < length ns" for i
    proof -
      have "map sn_id (pushChild p ?ident ns) ! i = map sn_id ns ! i"
        by (simp only: ids)
      then show ?thesis using that len by simp
    qed
    have idt: "sn_id ` set (take i (pushChild p ?ident ns)) = sn_id ` set (take i ns)" for i
    proof -
      have "set (map sn_id (take i (pushChild p ?ident ns))) = set (map sn_id (take i ns))"
        by (simp only: take_map [symmetric] ids)
      then show ?thesis by simp
    qed
    have kid: "map sn_id (filter (\<lambda>c. truthy (sn_parentId c) = Some x) (pushChild p ?ident ns))
        = map sn_id (filter (\<lambda>c. truthy (sn_parentId c) = Some x) ns)" for x
    proof -
      have "map sn_id (filter (\<lambda>c. truthy (sn_parentId c) = Some x) (map core (pushChild p ?ident ns)))
        = map sn_id (filter (\<lambda>c. truthy (sn_parentId c) = Some x) (map core ns))"
        by (simp only: core_pushChild)
      then show ?thesis by (simp only: kids_core)
    qed
    show ?thesis
      unfolding childrenLinked_def ns'
    proof (intro allI impI)
      fix i assume i: "i < length (pushChild p ?ident ns @ [new])"
      show "sn_childrenIds ((pushChild p ?ident ns @ [new]) ! i) =
        (if sn_id ((pushChild p ?ident ns @ [new]) ! i)
              \<in> sn_id ` set (take i (pushChild p ?ident ns @ [new])) then []
         else map sn_id (filter (\<lambda>c. truthy (sn_parentId c) =
                 Some (sn_id ((pushChild p ?ident ns @ [new]) ! i)))
               (pushChild p ?ident ns @ [new])))"
      proof (cases "i < length ns")
        case True
        have c: "sn_childrenIds (pushChild p ?ident ns ! i) =
            (if sn_id (ns ! i) = p \<and> p \<notin> sn_id ` set (take i ns)
             then sn_childrenIds (ns ! i) @ [?ident] else sn_childrenIds (ns ! i))"
          using True by (rule childrenIds_pushChild)
        show ?thesis
          using True old [OF True] c
          by (auto simp: nth_append len idn idt kid new Some)
      next
        case False
        with i len have il: "i = length ns" by simp
        have "filter (\<lambda>c. truthy (sn_parentId c) = Some ?ident) ns = []"
          if "?ident \<notin> sn_id ` set ns"
          using kids_unknown [OF pp [unfolded st fst_conv] that] .
        then show ?thesis
          using ne idt [of "length ns"] kid [of ?ident] len
          by (auto simp: il nth_append new Some)
      qed
    qed
  qed
  with pp' st show ?thesis by simp
qed

lemma flatten_sampleTree:
  "map (\<lambda>s. (sn_id s, sn_parentId s, sn_childrenIds s, sn_position s))
     (fst (flatten rnd sampleTree None ([], 0))) =
     [(''repo'', None, [''repo/src'', ''repo/README.md''], Vector3 0 0 0),
      (''repo/src'', Some ''repo'', [''repo/src/a.ts''], addV (Vector3 0 0 0) (jitter rnd 0)),
      (''repo/src/a.ts'', Some ''repo/src'', [],
         addV (addV (Vector3 0 0 0) (jitter rnd 0)) (jitter rnd 2)),
      (''repo/README.md'', Some ''repo'', [], addV (Vector3 0 0 0) (jitter rnd 4))]"
  by (simp add: sampleTree_def Let_def jitter_def del: add_2_eq_Suc add_2_eq_Suc')

theorem C9_zero_iterations_witness:
  "fn_name sampleTree \<noteq> []
   \<and> map (\<lambda>c. (fst (cn_position c), snd (snd (cn_position c))))
         (generateCityLayout (\<lambda>i. real i / 10) (\<lambda>i. 0) sampleTree 0) =
       [(0, 0), (- 50, - 40), (- 80, - 60), (- 10, 0)]"
proof -
  have h: "fn_name sampleTree \<noteq> []"
    by (simp add: sampleTree_def)
  have "map sn_position (fst (flatten (\<lambda>i. real i / 10) sampleTree None ([], 0))) =
      [Vector3 0 0 0, Vector3 (- 50) 0 (- 40), Vector3 (- 80) 0 (- 60), Vector3 (- 10) 0 0]"
    by (simp add: sampleTree_def Let_def addV_def)
  then have "map (\<lambda>s. (vx (sn_position s), vz (sn_position s)))
      (fst (flatten (\<lambda>i. real i / 10) sampleTree None ([], 0))) =
      map (\<lambda>v. (vx v, vz v))
        [Vector3 0 0 0, Vector3 (- 50) 0 (- 40), Vector3 (- 80) 0 (- 60), Vector3 (- 10) 0 0]"
    by (simp only: map_map [symmetric, of "\<lambda>v. (vx v, vz v)" sn_position, unfolded o_def])
  with C9_zero_iterations [OF h, of "\<lambda>i. real i / 10" 0 "([], 0)" "\<lambda>i. 0"] h
  show ?thesis by simp
qed

text \<open>The claim C9 as stated fails for a root named by the empty string: the child is visited
  with the falsy \<open>parentId ''\<close>, so it is put at the origin with no draw, although the draws
  would have moved it to \<open>(-50, -50)\<close>.\<close>

theorem C9_nameless_root_counterexample:
  "map (\<lambda>c. (fst (cn_position c), snd (snd (cn_position c))))
     (generateCityLayout (\<lambda>i. 0) (\<lambda>i. 0) namelessRoot 0) = [(0, 0), (0, 0)]
   \<and> addV (Vector3 0 0 0) (jitter (\<lambda>i. 0) 0) = Vector3 (- 50) 0 (- 50)"
  by (simp add: generateCityLayout_def namelessRoot_def Let_def toCityNode_def jitter_def
      addV_def)

lemma linked_flatten:
  "parentsPrecede (fst (flatten rnd rootNode None ([], 0)))
   \<and> childrenLinked (fst (flatten rnd rootNode None ([], 0)))"
proof -
  have 0: "parentsPrecede (fst ([], 0::nat)) \<and> childrenLinked (fst ([], 0::nat))"
    by (simp add: parentsPrecede_iff childrenLinked_def)
  have k: "parentKnown None ([], 0)"
    by (simp add: parentKnown_iff)
  have "(parentsPrecede (fst (flatten rnd rootNode None ([], 0)))
       \<and> childrenLinked (fst (flatten rnd rootNode None ([], 0)))) \<and>
    (\<forall>pid'. parentKnown pid' ([], 0) \<longrightarrow> parentKnown pid' (flatten rnd rootNode None ([], 0)))"
    using 0 k
    by (rule flatten_invariant
          [where I = "\<lambda>st. parentsPrecede (fst st) \<and> childrenLinked (fst st)", rotated])
       (simp add: childrenLinked_admitNode)
  then show ?thesis by blast
qed

lemma distinct_not_earlier:
  assumes "distinct (map f xs)" and "i < length xs"
  shows "f (xs ! i) \<notin> f ` set (take i xs)"
proof -
  have "xs = take i xs @ xs ! i # drop (Suc i) xs"
    using assms(2) by (rule id_take_nth_drop)
  then have "map f xs = map f (take i xs) @ f (xs ! i) # map f (drop (Suc i) xs)"
    by (metis list.simps(9) map_append)
  with assms(1) have "distinct (map f (take i xs) @ f (xs ! i) # map f (drop (Suc i) xs))"
    by simp
  then show ?thesis by simp
qed

text \<open>C8, as amended: when the root's name is not the empty string and the ids of the records
  are pairwise distinct, every record but the first has as \<open>parentId\<close> the id of a record
  strictly before it, and every record lists as \<open>childrenIds\<close> exactly the ids of the records
  of the array that name it as their parent, in array order, which for siblings is input
  order; ids and \<open>parentId\<close>s are those of the first 400 nodes of the preorder traversal, in
  which a child is visited with its parent's id, so the records that name a record as their
  parent are its admitted children, also when the cap cuts the traversal short.\<close>

theorem C8_adjacency:
  assumes "fn_name rootNode \<noteq> []"
    and "distinct (map sn_id (fst (flatten rnd rootNode None ([], 0))))"
  shows "(\<forall>j. 0 < j \<and> j < length (fst (flatten rnd rootNode None ([], 0))) \<longrightarrow>
           (\<exists>i<j. sn_parentId (fst (flatten rnd rootNode None ([], 0)) ! j) =
                     Some (sn_id (fst (flatten rnd rootNode None ([], 0)) ! i))))
   \<and> (\<forall>i<length (fst (flatten rnd rootNode None ([], 0))).
         sn_childrenIds (fst (flatten rnd rootNode None ([], 0)) ! i) =
           map sn_id (filter (\<lambda>c. sn_parentId c =
                                 Some (sn_id (fst (flatten rnd rootNode None ([], 0)) ! i)))
                        (fst (flatten rnd rootNode None ([], 0)))))
   \<and> map (\<lambda>s. (sn_id s, sn_parentId s)) (fst (flatten rnd rootNode None ([], 0))) =
       take 400 (map (\<lambda>(parentId, node). (nodeId parentId (fn_name node), parentId))
                   (preorder None rootNode))"
proof -
  let ?ns = "fst (flatten rnd rootNode None ([], 0))"
  have 1: "\<forall>j. 0 < j \<and> j < length ?ns \<longrightarrow>
           (\<exists>i<j. sn_parentId (?ns ! j) = Some (sn_id (?ns ! i)))"
    using flatten_placement [OF assms(1)] by blast
  have tr: "truthy (sn_parentId c) = sn_parentId c" if "c \<in> set ?ns" for c
  proof -
    from that obtain j where "j < length ?ns" "c = ?ns ! j"
      by (auto simp: in_set_conv_nth)
    then show ?thesis
      using flatten_parentIds_truthy(3) [OF assms(1)] by simp
  qed
  have 2: "sn_childrenIds (?ns ! i) =
      map sn_id (filter (\<lambda>c. sn_parentId c = Some (sn_id (?ns ! i))) ?ns)"
    if i: "i < length ?ns" for i
  proof -
    have "sn_childrenIds (?ns ! i) =
      (if sn_id (?ns ! i) \<in> sn_id ` set (take i ?ns) then []
       else map sn_id (filter (\<lambda>c. truthy (sn_parentId c) = Some (sn_id (?ns ! i))) ?ns))"
      using linked_flatten [of rnd rootNode] i by (simp add: childrenLinked_def)
    moreover have "sn_id (?ns ! i) \<notin> sn_id ` set (take i ?ns)"
      using assms(2) i by (rule distinct_not_earlier)
    moreover have "filter (\<lambda>c. truthy (sn_parentId c) = Some (sn_id (?ns ! i))) ?ns =
        filter (\<lambda>c. sn_parentId c = Some (sn_id (?ns ! i))) ?ns"
      by (rule filter_cong) (simp_all add: tr)
    ultimately show ?thesis by simp
  qed
  have "map (\<lambda>s. (sn_id s, sn_parentId s)) (simulatedNodes rnd rootNode 0) =
      map (\<lambda>x. (\<lambda>s. (sn_id s, sn_parentId s)) (initialRecord x)) (take 400 (preorder None rootNode))"
    by (rule map_skeleton_eq) (simp add: skeleton_def)
  then have 3: "map (\<lambda>s. (sn_id s, sn_parentId s)) ?ns =
       take 400 (map (\<lambda>(parentId, node). (nodeId parentId (fn_name node), parentId))
                   (preorder None rootNode))"
    by (simp add: simulatedNodes_0 initialRecord_def take_map split_def)
  from 1 2 3 show ?thesis by blast
qed

theorem C8_adjacency_witness:
  "fn_name sampleTree \<noteq> []
   \<and> distinct (map sn_id (fst (flatten (\<lambda>i. 0) sampleTree None ([], 0))))
   \<and> map sn_id (fst (flatten (\<lambda>i. 0) sampleTree None ([], 0))) =
       [''repo'', ''repo/src'', ''repo/src/a.ts'', ''repo/README.md'']
   \<and> map sn_parentId (fst (flatten (\<lambda>i. 0) sampleTree None ([], 0))) =
       [None, Some ''repo'', Some ''repo/src'', Some ''repo'']
   \<and> sn_childrenIds (fst (flatten (\<lambda>i. 0) sampleTree None ([], 0)) ! 0) =
       [''repo/src'', ''repo/README.md'']
   \<and> sn_childrenIds (fst (flatten (\<lambda>i. 0) sampleTree None ([], 0)) ! 1) = [''repo/src/a.ts'']"
proof -
  let ?ns = "fst (flatten (\<lambda>i. 0) sampleTree None ([], 0))"
  have h: "fn_name sampleTree \<noteq> []"
    by (simp add: sampleTree_def)
  have ids: "map sn_id ?ns = [''repo'', ''repo/src'', ''repo/src/a.ts'', ''repo/README.md'']"
    by (simp add: sampleTree_def Let_def)
  have pids: "map sn_parentId ?ns = [None, Some ''repo'', Some ''repo/src'', Some ''repo'']"
    by (simp add: sampleTree_def Let_def)
  have d: "distinct (map sn_id ?ns)"
    unfolding ids by simp
  have len: "length ?ns = 4"
    using ids [THEN arg_cong, of length] by simp
  obtain a b c e where ns: "?ns = [a, b, c, e]"
    using len by (auto simp: length_Suc_conv numeral_eq_Suc)
  have c0: "sn_childrenIds (?ns ! 0) =
      map sn_id (filter (\<lambda>c. sn_parentId c = Some (sn_id (?ns ! 0))) ?ns)"
    and c1: "sn_childrenIds (?ns ! 1) =
      map sn_id (filter (\<lambda>c. sn_parentId c = Some (sn_id (?ns ! 1))) ?ns)"
    using C8_adjacency [OF h d] len by simp_all
  have "sn_childrenIds (?ns ! 0) = [''repo/src'', ''repo/README.md'']"
    using ids pids unfolding c0 unfolding ns by simp
  moreover have "sn_childrenIds (?ns ! 1) = [''repo/src/a.ts'']"
    using ids pids unfolding c1 unfolding ns by simp
  ultimately show ?thesis
    using h d ids pids by blast
qed

text \<open>The claim C8 as stated fails on two sibling folders of one name: the child \<open>y\<close> of the
  second folder \<open>r/a\<close> (records 4 and 3) is pushed onto the list of the first record with
  that id (record 1), and the second folder lists no child.\<close>

theorem C8_twin_folders_counterexample:
  "map (\<lambda>s. (sn_id s, sn_parentId s, sn_childrenIds s))
     (fst (flatten (\<lambda>i. 0) twinFolders None ([], 0))) =
     [(''r'', None, [''r/a'', ''r/a'']),
      (''r/a'', Some ''r'', [''r/a/x'', ''r/a/y'']),
      (''r/a/x'', Some ''r/a'', []),
      (''r/a'', Some ''r'', []),
      (''r/a/y'', Some ''r/a'', [])]
   \<and> map (\<lambda>(parentId, node). (parentId, fn_name node, map_option (map fn_name) (fn_children node)))
       (preorder None twinFolders) =
     [(None, ''r'', Some [''a'', ''a'']),
      (Some ''r'', ''a'', Some [''x'']),
      (Some ''r/a'', ''x'', None),
      (Some ''r'', ''a'', Some [''y'']),
      (Some ''r/a'', ''y'', None)]"
  by (simp add: twinFolders_def Let_def nodeId_def)

text \<open>The same happens to a root named by the empty string: its child is visited with the
  falsy \<open>parentId ''\<close> and is never registered with the root.\<close>

lemma flatten_namelessRoot:
  "map (\<lambda>s. (sn_id s, sn_parentId s, sn_childrenIds s))
     (fst (flatten rnd namelessRoot None ([], 0))) =
     [([], None, []), (''a'', Some [], [])]"
  by (simp add: namelessRoot_def Let_def)

end
